theory Spec2Isabelle
  imports Main "HOL-Library.Product_Lexorder" "HOL-Library.Multiset"
begin

section \<open>Python values\<close>

subsection \<open>Strings\<close>

text \<open>
  A Python \<^verbatim>\<open>str\<close> is the list of its Unicode code points. Literals of the source
  that are plain ASCII are written \<open>lit ''...''\<close>; the emoji of the \<^verbatim>\<open>EMOJI\<close>
  table are written as their code points.
\<close>

type_synonym cp = int
type_synonym pystr = "cp list"

definition lit :: "string \<Rightarrow> pystr" where
  "lit s = map of_char s"

text \<open>
  \<^verbatim>\<open>str.isspace\<close> on one code point: the whitespace of CPython's Unicode database.
  \<^verbatim>\<open>str.strip()\<close> and the pattern class \<^verbatim>\<open>\s\<close> both use it.
\<close>

definition isspace :: "cp \<Rightarrow> bool" where
  "isspace c \<longleftrightarrow>
     (0x09 \<le> c \<and> c \<le> 0x0D) \<or> (0x1C \<le> c \<and> c \<le> 0x20) \<or> c = 0x85 \<or> c = 0xA0 \<or>
     c = 0x1680 \<or> (0x2000 \<le> c \<and> c \<le> 0x200A) \<or> c = 0x2028 \<or> c = 0x2029 \<or>
     c = 0x202F \<or> c = 0x205F \<or> c = 0x3000"

text \<open>
  The case mappings of the Unicode database (Unicode 14.0.0, the database of CPython 3.11).
  A range \<open>(lo, hi, step, d)\<close> maps every code point \<open>lo, lo + step, \<dots>\<close> up to \<open>hi\<close> to the
  code point \<open>d\<close> further; a code point in no range is mapped to itself.
\<close>

type_synonym case_range = "cp \<times> cp \<times> int \<times> int"

definition in_case_range :: "case_range \<Rightarrow> cp \<Rightarrow> bool" where
  "in_case_range r c \<longleftrightarrow> (case r of (lo, hi, step, d) \<Rightarrow> lo \<le> c \<and> c \<le> hi \<and> (c - lo) mod step = 0)"

fun case_map :: "case_range list \<Rightarrow> cp \<Rightarrow> cp" where
  "case_map [] c = c"
| "case_map (r # rs) c =
     (if in_case_range r c then (case r of (lo, hi, step, d) \<Rightarrow> c + d) else case_map rs c)"

text \<open>
  The lower-case mapping. \<^verbatim>\<open>U+0130\<close> alone has a lower case of two code points, and the
  capital sigma \<^verbatim>\<open>U+03A3\<close> is treated by \<open>lower_ucs4\<close> below.
\<close>

definition lower_ranges :: "case_range list" where
  "lower_ranges =
    [(0x0041, 0x005A, 1, 32), (0x00C0, 0x00D6, 1, 32), (0x00D8, 0x00DE, 1, 32),
     (0x0100, 0x012E, 2, 1), (0x0132, 0x0136, 2, 1), (0x0139, 0x0147, 2, 1),
     (0x014A, 0x0176, 2, 1), (0x0178, 0x0178, 1, - 121), (0x0179, 0x017D, 2, 1),
     (0x0181, 0x0181, 1, 210), (0x0182, 0x0184, 2, 1), (0x0186, 0x0186, 1, 206),
     (0x0187, 0x0187, 1, 1), (0x0189, 0x018A, 1, 205), (0x018B, 0x018B, 1, 1),
     (0x018E, 0x018E, 1, 79), (0x018F, 0x018F, 1, 202), (0x0190, 0x0190, 1, 203),
     (0x0191, 0x0191, 1, 1), (0x0193, 0x0193, 1, 205), (0x0194, 0x0194, 1, 207),
     (0x0196, 0x0196, 1, 211), (0x0197, 0x0197, 1, 209), (0x0198, 0x0198, 1, 1),
     (0x019C, 0x019C, 1, 211), (0x019D, 0x019D, 1, 213), (0x019F, 0x019F, 1, 214),
     (0x01A0, 0x01A4, 2, 1), (0x01A6, 0x01A6, 1, 218), (0x01A7, 0x01A7, 1, 1),
     (0x01A9, 0x01A9, 1, 218), (0x01AC, 0x01AC, 1, 1), (0x01AE, 0x01AE, 1, 218),
     (0x01AF, 0x01AF, 1, 1), (0x01B1, 0x01B2, 1, 217), (0x01B3, 0x01B5, 2, 1),
     (0x01B7, 0x01B7, 1, 219), (0x01B8, 0x01B8, 1, 1), (0x01BC, 0x01BC, 1, 1),
     (0x01C4, 0x01C4, 1, 2), (0x01C5, 0x01C5, 1, 1), (0x01C7, 0x01C7, 1, 2),
     (0x01C8, 0x01C8, 1, 1), (0x01CA, 0x01CA, 1, 2), (0x01CB, 0x01DB, 2, 1),
     (0x01DE, 0x01EE, 2, 1), (0x01F1, 0x01F1, 1, 2), (0x01F2, 0x01F4, 2, 1),
     (0x01F6, 0x01F6, 1, - 97), (0x01F7, 0x01F7, 1, - 56), (0x01F8, 0x021E, 2, 1),
     (0x0220, 0x0220, 1, - 130), (0x0222, 0x0232, 2, 1), (0x023A, 0x023A, 1, 10795),
     (0x023B, 0x023B, 1, 1), (0x023D, 0x023D, 1, - 163), (0x023E, 0x023E, 1, 10792),
     (0x0241, 0x0241, 1, 1), (0x0243, 0x0243, 1, - 195), (0x0244, 0x0244, 1, 69),
     (0x0245, 0x0245, 1, 71), (0x0246, 0x024E, 2, 1), (0x0370, 0x0372, 2, 1),
     (0x0376, 0x0376, 1, 1), (0x037F, 0x037F, 1, 116), (0x0386, 0x0386, 1, 38),
     (0x0388, 0x038A, 1, 37), (0x038C, 0x038C, 1, 64), (0x038E, 0x038F, 1, 63),
     (0x0391, 0x03A1, 1, 32), (0x03A3, 0x03AB, 1, 32), (0x03CF, 0x03CF, 1, 8),
     (0x03D8, 0x03EE, 2, 1), (0x03F4, 0x03F4, 1, - 60), (0x03F7, 0x03F7, 1, 1),
     (0x03F9, 0x03F9, 1, - 7), (0x03FA, 0x03FA, 1, 1), (0x03FD, 0x03FF, 1, - 130),
     (0x0400, 0x040F, 1, 80), (0x0410, 0x042F, 1, 32), (0x0460, 0x0480, 2, 1),
     (0x048A, 0x04BE, 2, 1), (0x04C0, 0x04C0, 1, 15), (0x04C1, 0x04CD, 2, 1),
     (0x04D0, 0x052E, 2, 1), (0x0531, 0x0556, 1, 48), (0x10A0, 0x10C5, 1, 7264),
     (0x10C7, 0x10C7, 1, 7264), (0x10CD, 0x10CD, 1, 7264), (0x13A0, 0x13EF, 1, 38864),
     (0x13F0, 0x13F5, 1, 8), (0x1C90, 0x1CBA, 1, - 3008), (0x1CBD, 0x1CBF, 1, - 3008),
     (0x1E00, 0x1E94, 2, 1), (0x1E9E, 0x1E9E, 1, - 7615), (0x1EA0, 0x1EFE, 2, 1),
     (0x1F08, 0x1F0F, 1, - 8), (0x1F18, 0x1F1D, 1, - 8), (0x1F28, 0x1F2F, 1, - 8),
     (0x1F38, 0x1F3F, 1, - 8), (0x1F48, 0x1F4D, 1, - 8), (0x1F59, 0x1F5F, 2, - 8),
     (0x1F68, 0x1F6F, 1, - 8), (0x1F88, 0x1F8F, 1, - 8), (0x1F98, 0x1F9F, 1, - 8),
     (0x1FA8, 0x1FAF, 1, - 8), (0x1FB8, 0x1FB9, 1, - 8), (0x1FBA, 0x1FBB, 1, - 74),
     (0x1FBC, 0x1FBC, 1, - 9), (0x1FC8, 0x1FCB, 1, - 86), (0x1FCC, 0x1FCC, 1, - 9),
     (0x1FD8, 0x1FD9, 1, - 8), (0x1FDA, 0x1FDB, 1, - 100), (0x1FE8, 0x1FE9, 1, - 8),
     (0x1FEA, 0x1FEB, 1, - 112), (0x1FEC, 0x1FEC, 1, - 7), (0x1FF8, 0x1FF9, 1, - 128),
     (0x1FFA, 0x1FFB, 1, - 126), (0x1FFC, 0x1FFC, 1, - 9), (0x2126, 0x2126, 1, - 7517),
     (0x212A, 0x212A, 1, - 8383), (0x212B, 0x212B, 1, - 8262), (0x2132, 0x2132, 1, 28),
     (0x2160, 0x216F, 1, 16), (0x2183, 0x2183, 1, 1), (0x24B6, 0x24CF, 1, 26),
     (0x2C00, 0x2C2F, 1, 48), (0x2C60, 0x2C60, 1, 1), (0x2C62, 0x2C62, 1, - 10743),
     (0x2C63, 0x2C63, 1, - 3814), (0x2C64, 0x2C64, 1, - 10727), (0x2C67, 0x2C6B, 2, 1),
     (0x2C6D, 0x2C6D, 1, - 10780), (0x2C6E, 0x2C6E, 1, - 10749),
     (0x2C6F, 0x2C6F, 1, - 10783), (0x2C70, 0x2C70, 1, - 10782), (0x2C72, 0x2C72, 1, 1),
     (0x2C75, 0x2C75, 1, 1), (0x2C7E, 0x2C7F, 1, - 10815), (0x2C80, 0x2CE2, 2, 1),
     (0x2CEB, 0x2CED, 2, 1), (0x2CF2, 0x2CF2, 1, 1), (0xA640, 0xA66C, 2, 1),
     (0xA680, 0xA69A, 2, 1), (0xA722, 0xA72E, 2, 1), (0xA732, 0xA76E, 2, 1),
     (0xA779, 0xA77B, 2, 1), (0xA77D, 0xA77D, 1, - 35332), (0xA77E, 0xA786, 2, 1),
     (0xA78B, 0xA78B, 1, 1), (0xA78D, 0xA78D, 1, - 42280), (0xA790, 0xA792, 2, 1),
     (0xA796, 0xA7A8, 2, 1), (0xA7AA, 0xA7AA, 1, - 42308), (0xA7AB, 0xA7AB, 1, - 42319),
     (0xA7AC, 0xA7AC, 1, - 42315), (0xA7AD, 0xA7AD, 1, - 42305),
     (0xA7AE, 0xA7AE, 1, - 42308), (0xA7B0, 0xA7B0, 1, - 42258),
     (0xA7B1, 0xA7B1, 1, - 42282), (0xA7B2, 0xA7B2, 1, - 42261), (0xA7B3, 0xA7B3, 1, 928),
     (0xA7B4, 0xA7C2, 2, 1), (0xA7C4, 0xA7C4, 1, - 48), (0xA7C5, 0xA7C5, 1, - 42307),
     (0xA7C6, 0xA7C6, 1, - 35384), (0xA7C7, 0xA7C9, 2, 1), (0xA7D0, 0xA7D0, 1, 1),
     (0xA7D6, 0xA7D8, 2, 1), (0xA7F5, 0xA7F5, 1, 1), (0xFF21, 0xFF3A, 1, 32),
     (0x10400, 0x10427, 1, 40), (0x104B0, 0x104D3, 1, 40), (0x10570, 0x1057A, 1, 39),
     (0x1057C, 0x1058A, 1, 39), (0x1058C, 0x10592, 1, 39), (0x10594, 0x10595, 1, 39),
     (0x10C80, 0x10CB2, 1, 64), (0x118A0, 0x118BF, 1, 32), (0x16E40, 0x16E5F, 1, 32),
     (0x1E900, 0x1E921, 1, 34)]"

definition to_lower_full :: "cp \<Rightarrow> pystr" where
  "to_lower_full c = (if c = 0x0130 then [0x0069, 0x0307] else [case_map lower_ranges c])"

text \<open>The title-case mapping; the code points of \<open>title_special\<close> have one of several code points.\<close>

definition title_ranges :: "case_range list" where
  "title_ranges =
    [(0x0061, 0x007A, 1, - 32), (0x00B5, 0x00B5, 1, 743), (0x00E0, 0x00F6, 1, - 32),
     (0x00F8, 0x00FE, 1, - 32), (0x00FF, 0x00FF, 1, 121), (0x0101, 0x012F, 2, - 1),
     (0x0131, 0x0131, 1, - 232), (0x0133, 0x0137, 2, - 1), (0x013A, 0x0148, 2, - 1),
     (0x014B, 0x0177, 2, - 1), (0x017A, 0x017E, 2, - 1), (0x017F, 0x017F, 1, - 300),
     (0x0180, 0x0180, 1, 195), (0x0183, 0x0185, 2, - 1), (0x0188, 0x0188, 1, - 1),
     (0x018C, 0x018C, 1, - 1), (0x0192, 0x0192, 1, - 1), (0x0195, 0x0195, 1, 97),
     (0x0199, 0x0199, 1, - 1), (0x019A, 0x019A, 1, 163), (0x019E, 0x019E, 1, 130),
     (0x01A1, 0x01A5, 2, - 1), (0x01A8, 0x01A8, 1, - 1), (0x01AD, 0x01AD, 1, - 1),
     (0x01B0, 0x01B0, 1, - 1), (0x01B4, 0x01B6, 2, - 1), (0x01B9, 0x01B9, 1, - 1),
     (0x01BD, 0x01BD, 1, - 1), (0x01BF, 0x01BF, 1, 56), (0x01C4, 0x01C4, 1, 1),
     (0x01C6, 0x01C6, 1, - 1), (0x01C7, 0x01C7, 1, 1), (0x01C9, 0x01C9, 1, - 1),
     (0x01CA, 0x01CA, 1, 1), (0x01CC, 0x01DC, 2, - 1), (0x01DD, 0x01DD, 1, - 79),
     (0x01DF, 0x01EF, 2, - 1), (0x01F1, 0x01F1, 1, 1), (0x01F3, 0x01F5, 2, - 1),
     (0x01F9, 0x021F, 2, - 1), (0x0223, 0x0233, 2, - 1), (0x023C, 0x023C, 1, - 1),
     (0x023F, 0x0240, 1, 10815), (0x0242, 0x0242, 1, - 1), (0x0247, 0x024F, 2, - 1),
     (0x0250, 0x0250, 1, 10783), (0x0251, 0x0251, 1, 10780), (0x0252, 0x0252, 1, 10782),
     (0x0253, 0x0253, 1, - 210), (0x0254, 0x0254, 1, - 206), (0x0256, 0x0257, 1, - 205),
     (0x0259, 0x0259, 1, - 202), (0x025B, 0x025B, 1, - 203), (0x025C, 0x025C, 1, 42319),
     (0x0260, 0x0260, 1, - 205), (0x0261, 0x0261, 1, 42315), (0x0263, 0x0263, 1, - 207),
     (0x0265, 0x0265, 1, 42280), (0x0266, 0x0266, 1, 42308), (0x0268, 0x0268, 1, - 209),
     (0x0269, 0x0269, 1, - 211), (0x026A, 0x026A, 1, 42308), (0x026B, 0x026B, 1, 10743),
     (0x026C, 0x026C, 1, 42305), (0x026F, 0x026F, 1, - 211), (0x0271, 0x0271, 1, 10749),
     (0x0272, 0x0272, 1, - 213), (0x0275, 0x0275, 1, - 214), (0x027D, 0x027D, 1, 10727),
     (0x0280, 0x0280, 1, - 218), (0x0282, 0x0282, 1, 42307), (0x0283, 0x0283, 1, - 218),
     (0x0287, 0x0287, 1, 42282), (0x0288, 0x0288, 1, - 218), (0x0289, 0x0289, 1, - 69),
     (0x028A, 0x028B, 1, - 217), (0x028C, 0x028C, 1, - 71), (0x0292, 0x0292, 1, - 219),
     (0x029D, 0x029D, 1, 42261), (0x029E, 0x029E, 1, 42258), (0x0345, 0x0345, 1, 84),
     (0x0371, 0x0373, 2, - 1), (0x0377, 0x0377, 1, - 1), (0x037B, 0x037D, 1, 130),
     (0x03AC, 0x03AC, 1, - 38), (0x03AD, 0x03AF, 1, - 37), (0x03B1, 0x03C1, 1, - 32),
     (0x03C2, 0x03C2, 1, - 31), (0x03C3, 0x03CB, 1, - 32), (0x03CC, 0x03CC, 1, - 64),
     (0x03CD, 0x03CE, 1, - 63), (0x03D0, 0x03D0, 1, - 62), (0x03D1, 0x03D1, 1, - 57),
     (0x03D5, 0x03D5, 1, - 47), (0x03D6, 0x03D6, 1, - 54), (0x03D7, 0x03D7, 1, - 8),
     (0x03D9, 0x03EF, 2, - 1), (0x03F0, 0x03F0, 1, - 86), (0x03F1, 0x03F1, 1, - 80),
     (0x03F2, 0x03F2, 1, 7), (0x03F3, 0x03F3, 1, - 116), (0x03F5, 0x03F5, 1, - 96),
     (0x03F8, 0x03F8, 1, - 1), (0x03FB, 0x03FB, 1, - 1), (0x0430, 0x044F, 1, - 32),
     (0x0450, 0x045F, 1, - 80), (0x0461, 0x0481, 2, - 1), (0x048B, 0x04BF, 2, - 1),
     (0x04C2, 0x04CE, 2, - 1), (0x04CF, 0x04CF, 1, - 15), (0x04D1, 0x052F, 2, - 1),
     (0x0561, 0x0586, 1, - 48), (0x13F8, 0x13FD, 1, - 8), (0x1C80, 0x1C80, 1, - 6254),
     (0x1C81, 0x1C81, 1, - 6253), (0x1C82, 0x1C82, 1, - 6244), (0x1C83, 0x1C84, 1, - 6242),
     (0x1C85, 0x1C85, 1, - 6243), (0x1C86, 0x1C86, 1, - 6236), (0x1C87, 0x1C87, 1, - 6181),
     (0x1C88, 0x1C88, 1, 35266), (0x1D79, 0x1D79, 1, 35332), (0x1D7D, 0x1D7D, 1, 3814),
     (0x1D8E, 0x1D8E, 1, 35384), (0x1E01, 0x1E95, 2, - 1), (0x1E9B, 0x1E9B, 1, - 59),
     (0x1EA1, 0x1EFF, 2, - 1), (0x1F00, 0x1F07, 1, 8), (0x1F10, 0x1F15, 1, 8),
     (0x1F20, 0x1F27, 1, 8), (0x1F30, 0x1F37, 1, 8), (0x1F40, 0x1F45, 1, 8),
     (0x1F51, 0x1F57, 2, 8), (0x1F60, 0x1F67, 1, 8), (0x1F70, 0x1F71, 1, 74),
     (0x1F72, 0x1F75, 1, 86), (0x1F76, 0x1F77, 1, 100), (0x1F78, 0x1F79, 1, 128),
     (0x1F7A, 0x1F7B, 1, 112), (0x1F7C, 0x1F7D, 1, 126), (0x1F80, 0x1F87, 1, 8),
     (0x1F90, 0x1F97, 1, 8), (0x1FA0, 0x1FA7, 1, 8), (0x1FB0, 0x1FB1, 1, 8),
     (0x1FB3, 0x1FB3, 1, 9), (0x1FBE, 0x1FBE, 1, - 7205), (0x1FC3, 0x1FC3, 1, 9),
     (0x1FD0, 0x1FD1, 1, 8), (0x1FE0, 0x1FE1, 1, 8), (0x1FE5, 0x1FE5, 1, 7),
     (0x1FF3, 0x1FF3, 1, 9), (0x214E, 0x214E, 1, - 28), (0x2170, 0x217F, 1, - 16),
     (0x2184, 0x2184, 1, - 1), (0x24D0, 0x24E9, 1, - 26), (0x2C30, 0x2C5F, 1, - 48),
     (0x2C61, 0x2C61, 1, - 1), (0x2C65, 0x2C65, 1, - 10795), (0x2C66, 0x2C66, 1, - 10792),
     (0x2C68, 0x2C6C, 2, - 1), (0x2C73, 0x2C73, 1, - 1), (0x2C76, 0x2C76, 1, - 1),
     (0x2C81, 0x2CE3, 2, - 1), (0x2CEC, 0x2CEE, 2, - 1), (0x2CF3, 0x2CF3, 1, - 1),
     (0x2D00, 0x2D25, 1, - 7264), (0x2D27, 0x2D27, 1, - 7264), (0x2D2D, 0x2D2D, 1, - 7264),
     (0xA641, 0xA66D, 2, - 1), (0xA681, 0xA69B, 2, - 1), (0xA723, 0xA72F, 2, - 1),
     (0xA733, 0xA76F, 2, - 1), (0xA77A, 0xA77C, 2, - 1), (0xA77F, 0xA787, 2, - 1),
     (0xA78C, 0xA78C, 1, - 1), (0xA791, 0xA793, 2, - 1), (0xA794, 0xA794, 1, 48),
     (0xA797, 0xA7A9, 2, - 1), (0xA7B5, 0xA7C3, 2, - 1), (0xA7C8, 0xA7CA, 2, - 1),
     (0xA7D1, 0xA7D1, 1, - 1), (0xA7D7, 0xA7D9, 2, - 1), (0xA7F6, 0xA7F6, 1, - 1),
     (0xAB53, 0xAB53, 1, - 928), (0xAB70, 0xABBF, 1, - 38864), (0xFF41, 0xFF5A, 1, - 32),
     (0x10428, 0x1044F, 1, - 40), (0x104D8, 0x104FB, 1, - 40), (0x10597, 0x105A1, 1, - 39),
     (0x105A3, 0x105B1, 1, - 39), (0x105B3, 0x105B9, 1, - 39), (0x105BB, 0x105BC, 1, - 39),
     (0x10CC0, 0x10CF2, 1, - 64), (0x118C0, 0x118DF, 1, - 32), (0x16E60, 0x16E7F, 1, - 32),
     (0x1E922, 0x1E943, 1, - 34)]"

definition title_special :: "(cp \<times> pystr) list" where
  "title_special =
    [(0x00DF, [0x0053, 0x0073]), (0x0149, [0x02BC, 0x004E]), (0x01F0, [0x004A, 0x030C]),
     (0x0390, [0x0399, 0x0308, 0x0301]), (0x03B0, [0x03A5, 0x0308, 0x0301]),
     (0x0587, [0x0535, 0x0582]), (0x1E96, [0x0048, 0x0331]), (0x1E97, [0x0054, 0x0308]),
     (0x1E98, [0x0057, 0x030A]), (0x1E99, [0x0059, 0x030A]), (0x1E9A, [0x0041, 0x02BE]),
     (0x1F50, [0x03A5, 0x0313]), (0x1F52, [0x03A5, 0x0313, 0x0300]),
     (0x1F54, [0x03A5, 0x0313, 0x0301]), (0x1F56, [0x03A5, 0x0313, 0x0342]),
     (0x1FB2, [0x1FBA, 0x0345]), (0x1FB4, [0x0386, 0x0345]), (0x1FB6, [0x0391, 0x0342]),
     (0x1FB7, [0x0391, 0x0342, 0x0345]), (0x1FC2, [0x1FCA, 0x0345]),
     (0x1FC4, [0x0389, 0x0345]), (0x1FC6, [0x0397, 0x0342]),
     (0x1FC7, [0x0397, 0x0342, 0x0345]), (0x1FD2, [0x0399, 0x0308, 0x0300]),
     (0x1FD3, [0x0399, 0x0308, 0x0301]), (0x1FD6, [0x0399, 0x0342]),
     (0x1FD7, [0x0399, 0x0308, 0x0342]), (0x1FE2, [0x03A5, 0x0308, 0x0300]),
     (0x1FE3, [0x03A5, 0x0308, 0x0301]), (0x1FE4, [0x03A1, 0x0313]),
     (0x1FE6, [0x03A5, 0x0342]), (0x1FE7, [0x03A5, 0x0308, 0x0342]),
     (0x1FF2, [0x1FFA, 0x0345]), (0x1FF4, [0x038F, 0x0345]), (0x1FF6, [0x03A9, 0x0342]),
     (0x1FF7, [0x03A9, 0x0342, 0x0345]), (0xFB00, [0x0046, 0x0066]),
     (0xFB01, [0x0046, 0x0069]), (0xFB02, [0x0046, 0x006C]),
     (0xFB03, [0x0046, 0x0066, 0x0069]), (0xFB04, [0x0046, 0x0066, 0x006C]),
     (0xFB05, [0x0053, 0x0074]), (0xFB06, [0x0053, 0x0074]), (0xFB13, [0x0544, 0x0576]),
     (0xFB14, [0x0544, 0x0565]), (0xFB15, [0x0544, 0x056B]), (0xFB16, [0x054E, 0x0576]),
     (0xFB17, [0x0544, 0x056D])]"

definition to_title_full :: "cp \<Rightarrow> pystr" where
  "to_title_full c =
     (case map_of title_special c of Some m \<Rightarrow> m | None \<Rightarrow> [case_map title_ranges c])"

text \<open>
  The lower case of the code point at position \<open>i\<close> of \<open>s\<close>. A capital sigma becomes the
  final sigma \<^verbatim>\<open>U+03C2\<close> or the sigma \<^verbatim>\<open>U+03C3\<close>, as the cased and case-ignorable code points
  around it decide: \<open>final_sigma s i\<close> is that decision, a parameter.
\<close>

definition lower_ucs4 :: "(pystr \<Rightarrow> nat \<Rightarrow> bool) \<Rightarrow> pystr \<Rightarrow> nat \<Rightarrow> pystr" where
  "lower_ucs4 final_sigma s i =
     (if s ! i = 0x03A3 then [if final_sigma s i then 0x03C2 else 0x03C3]
      else to_lower_full (s ! i))"

text \<open>\<^verbatim>\<open>str.lower()\<close>\<close>

definition lower :: "(pystr \<Rightarrow> nat \<Rightarrow> bool) \<Rightarrow> pystr \<Rightarrow> pystr" where
  "lower final_sigma s = concat (map (lower_ucs4 final_sigma s) [0 ..< length s])"

text \<open>
  \<^verbatim>\<open>str.capitalize()\<close>: the title case of the first code point, then the lower case of
  all the others.
\<close>

definition capitalize :: "(pystr \<Rightarrow> nat \<Rightarrow> bool) \<Rightarrow> pystr \<Rightarrow> pystr" where
  "capitalize final_sigma s =
     (case s of
        [] \<Rightarrow> []
      | c # _ \<Rightarrow> to_title_full c @ concat (map (lower_ucs4 final_sigma s) [1 ..< length s]))"

definition lstrip :: "pystr \<Rightarrow> pystr" where
  "lstrip s = dropWhile isspace s"

definition rstrip :: "pystr \<Rightarrow> pystr" where
  "rstrip s = rev (dropWhile isspace (rev s))"

definition strip :: "pystr \<Rightarrow> pystr" where
  "strip s = rstrip (lstrip s)"

text \<open>A string with no whitespace at either end (the empty string is one).\<close>

definition trimmed :: "pystr \<Rightarrow> bool" where
  "trimmed s \<longleftrightarrow> (case s of [] \<Rightarrow> True | c # _ \<Rightarrow> \<not> isspace c \<and> \<not> isspace (last s))"

subsection \<open>Dictionaries and dates\<close>

text \<open>\<^verbatim>\<open>d.get(k, default)\<close> on a dictionary.\<close>

definition dict_get :: "('k \<rightharpoonup> 'v) \<Rightarrow> 'k \<Rightarrow> 'v \<Rightarrow> 'v" where
  "dict_get m k d = (case m k of Some v \<Rightarrow> v | None \<Rightarrow> d)"

text \<open>
  A \<^verbatim>\<open>datetime.date\<close> is (year, month, day); dates compare lexicographically, which
  is the order of \<^verbatim>\<open>date.__lt__\<close>.
\<close>

type_synonym date = "nat \<times> nat \<times> nat"

text \<open>A collection record is the tuple \<^verbatim>\<open>(bin_type, date)\<close>.\<close>

type_synonym collection = "pystr \<times> date"

section \<open>The lookup tables\<close>

definition EMOJI :: "pystr \<rightharpoonup> pystr" where
  "EMOJI = map_of
     [(lit ''Household waste'', [0x1F5D1, 0xFE0F]),
      (lit ''Mixed recycling'', [0x267B, 0xFE0F]),
      (lit ''Garden waste recycling'', [0x1F33F])]"

definition SHORT :: "pystr \<rightharpoonup> pystr" where
  "SHORT = map_of
     [(lit ''Household waste'', lit ''Household Waste''),
      (lit ''Mixed recycling'', lit ''Recycling''),
      (lit ''Garden waste recycling'', lit ''Garden'')]"

section \<open>The event mapper: \<^verbatim>\<open>_build_calendar\<close>\<close>

text \<open>
  The fields of an \<^verbatim>\<open>Event\<close>. \<^verbatim>\<open>Event()\<close> draws a fresh uid, and the library compares and
  hashes events by their uid: \<open>ev_uid\<close> is the number of events created before this one.
  \<open>ev_begin\<close> is the date of the all-day event and \<open>ev_categories\<close> holds the list the
  source assigns.
\<close>

record alarm =
  trigger_hours :: int
  display_summary :: pystr

record event =
  ev_uid :: nat
  ev_name :: pystr
  ev_begin :: date
  ev_all_day :: bool
  ev_description :: pystr
  ev_location :: pystr
  ev_categories :: "pystr list"
  ev_alarms :: "alarm list"

text \<open>
  \<^verbatim>\<open>cal.events\<close> is a Python set, and \<^verbatim>\<open>cal.events.add(ev)\<close> adds an element to it: the
  calendar holds its events in no order.
\<close>

record calendar =
  events :: "event set"

definition Calendar :: calendar where
  "Calendar = \<lparr>events = {}\<rparr>"

definition events_add :: "calendar \<Rightarrow> event \<Rightarrow> calendar" where
  "events_add cal ev = cal\<lparr>events := insert ev (events cal)\<rparr>"

text \<open>
  A \<^verbatim>\<open>for\<close> over a set yields every element once, in an order the hashes decide: \<open>xs\<close> is
  an order in which the set \<open>S\<close> may be iterated.
\<close>

definition iterates :: "'a set \<Rightarrow> 'a list \<Rightarrow> bool" where
  "iterates S xs \<longleftrightarrow> distinct xs \<and> set xs = S"

text \<open>Line 94: \<^verbatim>\<open>f"{EMOJI.get(bin_type, '')} {SHORT.get(bin_type, bin_type)}".strip()\<close>.\<close>

definition title :: "pystr \<Rightarrow> pystr" where
  "title bin_type =
     strip (dict_get EMOJI bin_type [] @ lit '' '' @ dict_get SHORT bin_type bin_type)"

text \<open>Line 98: \<^verbatim>\<open>f"Put out the {bin_type.lower()} bin.".capitalize()\<close>.\<close>

definition description :: "(pystr \<Rightarrow> nat \<Rightarrow> bool) \<Rightarrow> pystr \<Rightarrow> pystr" where
  "description final_sigma bin_type =
     capitalize final_sigma
       (lit ''Put out the '' @ lower final_sigma bin_type @ lit '' bin.'')"

text \<open>
  The event the body of the loop builds for the record \<open>r\<close>, the \<open>k\<close>-th of the run.
  \<open>display_alarm\<close> says whether the import of \<^verbatim>\<open>DisplayAlarm\<close> succeeded.
\<close>

definition new_event :: "(pystr \<Rightarrow> nat \<Rightarrow> bool) \<Rightarrow> bool \<Rightarrow> nat \<Rightarrow> collection \<Rightarrow> event" where
  "new_event final_sigma display_alarm k r =
     (case r of (bin_type, d) \<Rightarrow>
        \<lparr>ev_uid = k,
         ev_name = title bin_type,
         ev_begin = d,
         ev_all_day = True,
         ev_description = description final_sigma bin_type,
         ev_location = lit ''Kerbside'',
         ev_categories = [bin_type],
         ev_alarms = (if display_alarm
                      then [\<lparr>trigger_hours = - 12, display_summary = title bin_type\<rparr>]
                      else [])\<rparr>)"

text \<open>
  The body of the loop. Lines 96 and 97 make the event begin at local midnight of the
  record's date and span that day; they raise \<^verbatim>\<open>OverflowError\<close> on a date at the end of the
  range of \<^verbatim>\<open>datetime\<close>, such as 9999-12-31, whose day has no following midnight.
  \<open>date_ok d\<close> says that they return on \<open>d\<close>; which dates these are depends on the local time
  zone. The result \<open>None\<close> is the exception.
\<close>

definition build_event ::
  "(pystr \<Rightarrow> nat \<Rightarrow> bool) \<Rightarrow> (date \<Rightarrow> bool) \<Rightarrow> bool \<Rightarrow> nat \<Rightarrow> collection \<Rightarrow> event option" where
  "build_event final_sigma date_ok display_alarm k r =
     (if date_ok (snd r) then Some (new_event final_sigma display_alarm k r) else None)"

text \<open>
  The loop of lines 91 to 104, from the \<open>k\<close>-th record on: an exception leaves it, and
  the calendar is not returned.
\<close>

fun build_loop ::
  "(pystr \<Rightarrow> nat \<Rightarrow> bool) \<Rightarrow> (date \<Rightarrow> bool) \<Rightarrow> bool \<Rightarrow> nat \<Rightarrow> calendar \<Rightarrow> collection list \<Rightarrow>
   calendar option" where
  "build_loop final_sigma date_ok display_alarm k cal [] = Some cal"
| "build_loop final_sigma date_ok display_alarm k cal (r # rs) =
     (case build_event final_sigma date_ok display_alarm k r of
        None \<Rightarrow> None
      | Some ev \<Rightarrow> build_loop final_sigma date_ok display_alarm (Suc k) (events_add cal ev) rs)"

definition build_calendar ::
  "(pystr \<Rightarrow> nat \<Rightarrow> bool) \<Rightarrow> (date \<Rightarrow> bool) \<Rightarrow> bool \<Rightarrow> collection list \<Rightarrow> calendar option" where
  "build_calendar final_sigma date_ok display_alarm evs =
     build_loop final_sigma date_ok display_alarm 0 Calendar evs"

section \<open>Date extraction: \<^verbatim>\<open>DATE_RE\<close> and \<^verbatim>\<open>_extract_date\<close>\<close>

text \<open>
  \<^verbatim>\<open>DATE_RE\<close> is a sequence of greedily repeated character classes. The four classes
  it uses: \<^verbatim>\<open>[A-Za-z]\<close>, the comma, \<^verbatim>\<open>\s\<close> and \<^verbatim>\<open>\d\<close>. On a \<^verbatim>\<open>str\<close> pattern \<^verbatim>\<open>\d\<close> matches
  every decimal digit of Unicode (category Nd), not the ASCII digits alone: the ranges
  below are those of Unicode 14.0.0, the database of CPython 3.11.
\<close>

definition digit_ranges :: "(cp \<times> cp) list" where
  "digit_ranges =
    [(0x0030, 0x0039), (0x0660, 0x0669), (0x06F0, 0x06F9), (0x07C0, 0x07C9),
     (0x0966, 0x096F), (0x09E6, 0x09EF), (0x0A66, 0x0A6F), (0x0AE6, 0x0AEF),
     (0x0B66, 0x0B6F), (0x0BE6, 0x0BEF), (0x0C66, 0x0C6F), (0x0CE6, 0x0CEF),
     (0x0D66, 0x0D6F), (0x0DE6, 0x0DEF), (0x0E50, 0x0E59), (0x0ED0, 0x0ED9),
     (0x0F20, 0x0F29), (0x1040, 0x1049), (0x1090, 0x1099), (0x17E0, 0x17E9),
     (0x1810, 0x1819), (0x1946, 0x194F), (0x19D0, 0x19D9), (0x1A80, 0x1A89),
     (0x1A90, 0x1A99), (0x1B50, 0x1B59), (0x1BB0, 0x1BB9), (0x1C40, 0x1C49),
     (0x1C50, 0x1C59), (0xA620, 0xA629), (0xA8D0, 0xA8D9), (0xA900, 0xA909),
     (0xA9D0, 0xA9D9), (0xA9F0, 0xA9F9), (0xAA50, 0xAA59), (0xABF0, 0xABF9),
     (0xFF10, 0xFF19), (0x104A0, 0x104A9), (0x10D30, 0x10D39), (0x11066, 0x1106F),
     (0x110F0, 0x110F9), (0x11136, 0x1113F), (0x111D0, 0x111D9), (0x112F0, 0x112F9),
     (0x11450, 0x11459), (0x114D0, 0x114D9), (0x11650, 0x11659), (0x116C0, 0x116C9),
     (0x11730, 0x11739), (0x118E0, 0x118E9), (0x11950, 0x11959), (0x11C50, 0x11C59),
     (0x11D50, 0x11D59), (0x11DA0, 0x11DA9), (0x16A60, 0x16A69), (0x16AC0, 0x16AC9),
     (0x16B50, 0x16B59), (0x1D7CE, 0x1D7FF), (0x1E140, 0x1E149), (0x1E2F0, 0x1E2F9),
     (0x1E950, 0x1E959), (0x1FBF0, 0x1FBF9)]"

definition isdecimal :: "cp \<Rightarrow> bool" where
  "isdecimal c \<longleftrightarrow> list_ex (\<lambda>(lo, hi). lo \<le> c \<and> c \<le> hi) digit_ranges"

datatype cclass = Alpha | Comma | Space | Digit

fun cclass_match :: "cclass \<Rightarrow> cp \<Rightarrow> bool" where
  "cclass_match Alpha c \<longleftrightarrow> (0x41 \<le> c \<and> c \<le> 0x5A) \<or> (0x61 \<le> c \<and> c \<le> 0x7A)"
| "cclass_match Comma c \<longleftrightarrow> c = 0x2C"
| "cclass_match Space c \<longleftrightarrow> isspace c"
| "cclass_match Digit c \<longleftrightarrow> isdecimal c"

text \<open>One repeated class: the class, the least and the greatest number of repetitions.\<close>

type_synonym rep = "cclass \<times> nat \<times> nat option"

text \<open>\<^verbatim>\<open>[A-Za-z]+,?\s+\d{1,2}\s+[A-Za-z]+\s+\d{4}\<close>\<close>

definition DATE_RE :: "rep list" where
  "DATE_RE =
     [(Alpha, 1, None), (Comma, 0, Some 1), (Space, 1, None), (Digit, 1, Some 2),
      (Space, 1, None), (Alpha, 1, None), (Space, 1, None), (Digit, 4, Some 4)]"

fun first_some :: "('a \<Rightarrow> 'b option) \<Rightarrow> 'a list \<Rightarrow> 'b option" where
  "first_some f [] = None"
| "first_some f (x # xs) = (case f x of Some y \<Rightarrow> Some y | None \<Rightarrow> first_some f xs)"

text \<open>
  The backtracking matcher at the start of a string: a greedy repetition first takes as
  many code points as it may, and gives them back one at a time while the rest of the
  pattern fails. The result is the length of the match.
\<close>

fun re_match :: "rep list \<Rightarrow> pystr \<Rightarrow> nat option" where
  "re_match [] s = Some 0"
| "re_match ((c, lo, hi) # p) s =
     (let run = length (takeWhile (cclass_match c) s);
          most = (case hi of None \<Rightarrow> run | Some h \<Rightarrow> min h run)
      in first_some (\<lambda>k. map_option (\<lambda>n. k + n) (re_match p (drop k s)))
           (rev [lo ..< Suc most]))"

text \<open>
  \<^verbatim>\<open>pattern.search(text)\<close> followed by \<^verbatim>\<open>m.group(0)\<close>: the match at the leftmost
  position that has one.
\<close>

fun re_search :: "rep list \<Rightarrow> pystr \<Rightarrow> pystr option" where
  "re_search p [] = (case re_match p [] of Some n \<Rightarrow> Some [] | None \<Rightarrow> None)"
| "re_search p (c # s) =
     (case re_match p (c # s) of Some n \<Rightarrow> Some (take n (c # s)) | None \<Rightarrow> re_search p s)"

text \<open>
  \<^verbatim>\<open>dateutil.parser.parse\<close> (with \<^verbatim>\<open>dayfirst=False\<close>) is a parameter. Called on a
  \<^verbatim>\<open>str\<close> it returns a datetime, of which \<^verbatim>\<open>.date()\<close> is kept, or raises one of the two
  exceptions its documentation names for a string: \<^verbatim>\<open>ParserError\<close>, which is a
  \<^verbatim>\<open>ValueError\<close>, and \<^verbatim>\<open>OverflowError\<close>. These are the two the source catches.
\<close>

datatype parse_result = Parsed date | ValueError | OverflowError

type_synonym dtparse = "pystr \<Rightarrow> parse_result"

definition extract_date :: "dtparse \<Rightarrow> pystr \<Rightarrow> date option" where
  "extract_date dtparse txt =
     (case re_search DATE_RE txt of
        None \<Rightarrow> None
      | Some m \<Rightarrow>
          (case dtparse m of
             Parsed d \<Rightarrow> Some d
           | ValueError \<Rightarrow> None
           | OverflowError \<Rightarrow> None))"

section \<open>The parsed document\<close>

text \<open>
  The tree \<^verbatim>\<open>BeautifulSoup(r.text, "html.parser")\<close> builds: a string, or a tag with its
  name, its classes and its children. The \<^verbatim>\<open>BeautifulSoup\<close> object itself is the tag
  named \<^verbatim>\<open>[document]\<close> above the top-level nodes.

  \<open>Text\<close> is a string of the classes \<^verbatim>\<open>get_text\<close> of a \<^verbatim>\<open>div\<close> or a \<^verbatim>\<open>li\<close> yields
  (\<^verbatim>\<open>NavigableString\<close>, \<^verbatim>\<open>CData\<close>); \<open>OtherString\<close> is a string of any other class, which it
  leaves out: a comment, a doctype, a declaration, a processing instruction, and the text
  the parser puts below a \<^verbatim>\<open>script\<close>, \<^verbatim>\<open>style\<close> or \<^verbatim>\<open>template\<close> element.
\<close>

datatype node = Text pystr | OtherString pystr | Tag pystr "pystr list" "node list"

definition document :: "node list \<Rightarrow> node" where
  "document contents = Tag (lit ''[document]'') [] contents"

text \<open>
  The elements of a subtree in document order, each with its ancestors (the nearest
  first). The first element is the subtree's root.
\<close>

type_synonym element = "node list \<times> node"

fun walk :: "node list \<Rightarrow> node \<Rightarrow> element list" where
  "walk anc (Text t) = [(anc, Text t)]"
| "walk anc (OtherString t) = [(anc, OtherString t)]"
| "walk anc (Tag n cs ch) = (anc, Tag n cs ch) # concat (map (walk (Tag n cs ch # anc)) ch)"

definition descendants :: "node list \<Rightarrow> node \<Rightarrow> element list" where
  "descendants anc n = tl (walk anc n)"

fun is_tag :: "pystr \<Rightarrow> node \<Rightarrow> bool" where
  "is_tag nm (Text t) = False"
| "is_tag nm (OtherString t) = False"
| "is_tag nm (Tag n cs ch) = (n = nm)"

fun has_class :: "pystr \<Rightarrow> node \<Rightarrow> bool" where
  "has_class c (Text t) = False"
| "has_class c (OtherString t) = False"
| "has_class c (Tag n cs ch) = (c \<in> set cs)"

text \<open>
  The strings \<^verbatim>\<open>get_text\<close> takes from a \<^verbatim>\<open>div\<close> or a \<^verbatim>\<open>li\<close>, the only elements the
  source calls it on, in document order.
\<close>

fun strings :: "node \<Rightarrow> pystr list" where
  "strings (Text t) = [t]"
| "strings (OtherString t) = []"
| "strings (Tag n cs ch) = concat (map strings ch)"

text \<open>\<^verbatim>\<open>sep.join(parts)\<close>\<close>

fun join :: "pystr \<Rightarrow> pystr list \<Rightarrow> pystr" where
  "join sep [] = []"
| "join sep [x] = x"
| "join sep (x # y # ys) = x @ sep @ join sep (y # ys)"

text \<open>\<^verbatim>\<open>tag.get_text()\<close>\<close>

definition get_text :: "node \<Rightarrow> pystr" where
  "get_text n = concat (strings n)"

text \<open>
  \<^verbatim>\<open>tag.get_text(sep, strip=True)\<close>: every string is stripped, the empty ones are left
  out, and the others are joined by \<open>sep\<close>.
\<close>

definition get_text_strip :: "pystr \<Rightarrow> node \<Rightarrow> pystr" where
  "get_text_strip sep n = join sep (filter (\<lambda>t. t \<noteq> []) (map strip (strings n)))"

text \<open>\<^verbatim>\<open>sub in s\<close>\<close>

fun contains :: "pystr \<Rightarrow> pystr \<Rightarrow> bool" where
  "contains sub [] \<longleftrightarrow> sub = []"
| "contains sub (c # s) \<longleftrightarrow> take (length sub) (c # s) = sub \<or> contains sub s"

text \<open>\<^verbatim>\<open>str(d)\<close> for a date \<open>d\<close>: \<^verbatim>\<open>YYYY-MM-DD\<close>.\<close>

primrec decimal :: "nat \<Rightarrow> nat \<Rightarrow> pystr" where
  "decimal 0 n = []"
| "decimal (Suc w) n = decimal w (n div 10) @ [0x30 + int (n mod 10)]"

definition isoformat :: "date \<Rightarrow> pystr" where
  "isoformat d =
     (case d of (y, m, dd) \<Rightarrow> decimal 4 y @ lit ''-'' @ decimal 2 m @ lit ''-'' @ decimal 2 dd)"

section \<open>The extractor: \<^verbatim>\<open>_scrape\<close>\<close>

text \<open>The list \<^verbatim>\<open>collections\<close> and what has been printed, line by line.\<close>

record scrape_state =
  collections :: "collection list"
  stdout :: "pystr list"

definition append_collection :: "collection \<Rightarrow> scrape_state \<Rightarrow> scrape_state" where
  "append_collection r st = st\<lparr>collections := collections st @ [r]\<rparr>"

definition print :: "pystr \<Rightarrow> scrape_state \<Rightarrow> scrape_state" where
  "print ln st = st\<lparr>stdout := stdout st @ [ln]\<rparr>"

text \<open>
  Lines 70 to 77: the loop over \<^verbatim>\<open>container.find_all("div", class_="u-mb-2")\<close>, left by
  \<^verbatim>\<open>break\<close> at the first block whose text has the marker.
\<close>

fun next_collection ::
  "dtparse \<Rightarrow> bool \<Rightarrow> pystr \<Rightarrow> node list \<Rightarrow> scrape_state \<Rightarrow> scrape_state" where
  "next_collection dtparse verbose bin_type [] st = st"
| "next_collection dtparse verbose bin_type (dv # dvs) st =
     (if contains (lit ''Next collection'') (get_text dv)
      then (case extract_date dtparse (get_text dv) of
              Some d \<Rightarrow>
                (let st1 = append_collection (bin_type, d) st
                 in if verbose
                    then print (lit ''Found next '' @ bin_type @ lit '': '' @ isoformat d) st1
                    else st1)
            | None \<Rightarrow> st)
      else next_collection dtparse verbose bin_type dvs st)"

text \<open>Lines 81 to 83: the body of the loop over \<^verbatim>\<open>colldiv.select("ul li")\<close>.\<close>

definition future_item :: "dtparse \<Rightarrow> pystr \<Rightarrow> scrape_state \<Rightarrow> node \<Rightarrow> scrape_state" where
  "future_item dtparse bin_type st li =
     (case extract_date dtparse (get_text_strip (lit '' '') li) of
        Some d \<Rightarrow> append_collection (bin_type, d) st
      | None \<Rightarrow> st)"

text \<open>
  The queries of one section. \<open>els\<close> are the elements of the whole document in document
  order and \<open>i\<close> is the position of \<^verbatim>\<open>colldiv\<close> among them.

  \<^verbatim>\<open>find_previous("div", class_="u-mb-4")\<close> is the nearest element before \<^verbatim>\<open>colldiv\<close> in
  document order that matches; \<^verbatim>\<open>select("ul li")\<close> yields the \<^verbatim>\<open>li\<close> below
  \<^verbatim>\<open>colldiv\<close> that have a \<^verbatim>\<open>ul\<close> among their ancestors.
\<close>

definition is_div_class :: "pystr \<Rightarrow> node \<Rightarrow> bool" where
  "is_div_class c n \<longleftrightarrow> is_tag (lit ''div'') n \<and> has_class c n"

definition find_previous :: "element list \<Rightarrow> nat \<Rightarrow> node option" where
  "find_previous els i =
     (case filter (is_div_class (lit ''u-mb-4'')) (rev (map snd (take i els))) of
        [] \<Rightarrow> None
      | h # _ \<Rightarrow> Some h)"

definition parent :: "element \<Rightarrow> node option" where
  "parent e = (case fst e of [] \<Rightarrow> None | a # _ \<Rightarrow> Some a)"

definition find_all_div :: "pystr \<Rightarrow> node \<Rightarrow> node list" where
  "find_all_div c n = filter (is_div_class c) (map snd (descendants [] n))"

definition select_ul_li :: "element \<Rightarrow> node list" where
  "select_ul_li e =
     map snd (filter (\<lambda>(anc, n). is_tag (lit ''li'') n \<and> list_ex (is_tag (lit ''ul'')) anc)
                (descendants (fst e) (snd e)))"

text \<open>Lines 64 to 83: the body of the loop over the sections.\<close>

definition scrape_section ::
  "dtparse \<Rightarrow> bool \<Rightarrow> element list \<Rightarrow> scrape_state \<Rightarrow> nat \<Rightarrow> scrape_state" where
  "scrape_section dtparse verbose els st i =
     (let colldiv = els ! i;
          bin_type = (case find_previous els i of
                        Some heading_tag \<Rightarrow> get_text_strip [] heading_tag
                      | None \<Rightarrow> lit ''Bin'');
          st1 = (case parent colldiv of
                   Some container \<Rightarrow>
                     next_collection dtparse verbose bin_type
                       (find_all_div (lit ''u-mb-2'') container) st
                 | None \<Rightarrow> st)
      in foldl (future_item dtparse bin_type) st1 (select_ul_li colldiv))"

text \<open>
  \<^verbatim>\<open>soup.select("div.colldates")\<close>: the positions, in document order, of the elements
  that match.
\<close>

definition select_colldates :: "element list \<Rightarrow> nat list" where
  "select_colldates els =
     filter (\<lambda>i. is_div_class (lit ''colldates'') (snd (els ! i))) [0 ..< length els]"

text \<open>
  Line 85 builds a \<^verbatim>\<open>set\<close> and line 86 iterates over it. A set keeps one element of every
  value; the order in which it is iterated follows the hashes of its elements, and the
  hash of a \<^verbatim>\<open>str\<close> is salted anew for every run of the interpreter. The parameter
  \<open>slot\<close> stands for that order: the set is iterated by ascending slot, and elements
  that share a slot come in the order they were added.
\<close>

type_synonym 'a hashing = "'a \<Rightarrow> nat"

fun set_add_all :: "'a list \<Rightarrow> 'a list \<Rightarrow> 'a list" where
  "set_add_all acc [] = acc"
| "set_add_all acc (x # xs) = set_add_all (if x \<in> set acc then acc else acc @ [x]) xs"

definition set_iter :: "'a hashing \<Rightarrow> 'a list \<Rightarrow> 'a list" where
  "set_iter slot xs = sort_key slot (set_add_all [] xs)"

text \<open>
  \<^verbatim>\<open>sorted(unique, key=lambda bd: bd[1])\<close>: a stable sort of the set's elements, as
  iterated, by date.
\<close>

definition sorted_unique :: "collection hashing \<Rightarrow> collection list \<Rightarrow> collection list" where
  "sorted_unique slot cs = sort_key snd (set_iter slot cs)"

text \<open>
  Lines 60 to 86 of \<^verbatim>\<open>_scrape\<close>, from the parsed document on: what is printed and the
  list returned.
\<close>

definition scrape_state0 :: scrape_state where
  "scrape_state0 = \<lparr>collections = [], stdout = []\<rparr>"

definition scrape_loop :: "dtparse \<Rightarrow> bool \<Rightarrow> node list \<Rightarrow> scrape_state" where
  "scrape_loop dtparse verbose contents =
     (let els = walk [] (document contents)
      in foldl (scrape_section dtparse verbose els) scrape_state0 (select_colldates els))"

definition scrape_soup ::
  "dtparse \<Rightarrow> collection hashing \<Rightarrow> bool \<Rightarrow> node list \<Rightarrow> pystr list \<times> collection list" where
  "scrape_soup dtparse slot verbose contents =
     (let st = scrape_loop dtparse verbose contents
      in (stdout st, sorted_unique slot (collections st)))"

text \<open>
  The whole of \<^verbatim>\<open>_scrape\<close>. \<^verbatim>\<open>requests.get\<close> and the HTML parser are parameters; the
  request raises or returns a response, and \<^verbatim>\<open>raise_for_status()\<close> raises on a status
  from 400 to 599.
\<close>

datatype exn = RequestException | HTTPError

record response =
  status_code :: nat
  body :: pystr

definition scrape ::
  "(pystr \<Rightarrow> exn + response) \<Rightarrow> (pystr \<Rightarrow> node list) \<Rightarrow> dtparse \<Rightarrow> collection hashing \<Rightarrow>
   pystr \<Rightarrow> bool \<Rightarrow> exn + pystr list \<times> collection list" where
  "scrape requests_get html_parser dtparse slot url verbose =
     (case requests_get url of
        Inl e \<Rightarrow> Inl e
      | Inr r \<Rightarrow>
          if 400 \<le> status_code r \<and> status_code r < 600 then Inl HTTPError
          else Inr (scrape_soup dtparse slot verbose (html_parser (body r))))"

section \<open>The description as the specification words it\<close>

text \<open>
  The template \<^verbatim>\<open>Put out the {bin_type, lowercased} bin.\<close>, and the capitalisation of
  the first code point alone, to compare \<open>description\<close> with.
\<close>

definition description_template :: "(pystr \<Rightarrow> nat \<Rightarrow> bool) \<Rightarrow> pystr \<Rightarrow> pystr" where
  "description_template final_sigma bin_type =
     lit ''Put out the '' @ lower final_sigma bin_type @ lit '' bin.''"

fun capitalize_first_only :: "pystr \<Rightarrow> pystr" where
  "capitalize_first_only [] = []"
| "capitalize_first_only (c # cs) = to_title_full c @ cs"

section \<open>Notions for the proofs about the case mappings\<close>

text \<open>
  \<open>apart r1 r2\<close>: no code point that the range \<open>r1\<close> maps to lies in the range \<open>r2\<close>.
  \<open>apart_walk\<close> checks it for every pair of ranges of a table sorted by its bounds, looking
  only at the ranges near the image of each. A code point is \<open>lower_stable\<close> when
  \<^verbatim>\<open>str.lower()\<close> leaves it as it is wherever it stands.
\<close>

definition apart :: "case_range \<Rightarrow> case_range \<Rightarrow> bool" where
  "apart r1 r2 \<longleftrightarrow>
     (case r1 of (lo1, hi1, step1, d1) \<Rightarrow>
      case r2 of (lo2, hi2, step2, d2) \<Rightarrow>
        hi1 + d1 < lo2 \<or> hi2 < lo1 + d1 \<or>
        (step1 = step2 \<and> (lo1 + d1 - lo2) mod step2 \<noteq> 0) \<or>
        (lo1 = hi1 \<and> \<not> in_case_range r2 (lo1 + d1)))"

definition range_lo :: "case_range \<Rightarrow> cp" where
  "range_lo r = (case r of (lo, hi, step, d) \<Rightarrow> lo)"

definition range_hi :: "case_range \<Rightarrow> cp" where
  "range_hi r = (case r of (lo, hi, step, d) \<Rightarrow> hi)"

definition image_lo :: "case_range \<Rightarrow> cp" where
  "image_lo r = (case r of (lo, hi, step, d) \<Rightarrow> lo + d)"

definition image_hi :: "case_range \<Rightarrow> cp" where
  "image_hi r = (case r of (lo, hi, step, d) \<Rightarrow> hi + d)"

fun apart_down :: "case_range \<Rightarrow> case_range list \<Rightarrow> bool" where
  "apart_down r1 [] = True"
| "apart_down r1 (r2 # l) = (range_hi r2 < image_lo r1 \<or> (apart r1 r2 \<and> apart_down r1 l))"

fun apart_up :: "case_range \<Rightarrow> case_range list \<Rightarrow> bool" where
  "apart_up r1 [] = True"
| "apart_up r1 (r2 # l) = (image_hi r1 < range_lo r2 \<or> (apart r1 r2 \<and> apart_up r1 l))"

fun apart_walk :: "case_range list \<Rightarrow> case_range list \<Rightarrow> bool" where
  "apart_walk before [] = True"
| "apart_walk before (r # after) =
     (apart_down r before \<and> apart_up r (r # after) \<and> apart_walk (r # before) after)"

definition lower_stable :: "cp \<Rightarrow> bool" where
  "lower_stable c \<longleftrightarrow> c \<noteq> 0x03A3 \<and> to_lower_full c = [c]"

section \<open>Sample inputs\<close>

definition records0 :: "collection list" where
  "records0 =
     [(lit ''Household waste'', (2025, 1, 10)),
      (lit ''Mixed recycling'', (2025, 1, 10)),
      (lit ''Household waste'', (2025, 2, 7))]"

text \<open>
  A date parser to run the extractor with: it knows two dates and raises \<^verbatim>\<open>ValueError\<close> on
  every other text.
\<close>

definition dtparse0 :: dtparse where
  "dtparse0 s =
     (if s = lit ''Friday, 10 January 2025'' then Parsed (2025, 1, 10)
      else if s = lit ''Saturday, 7 February 2025'' then Parsed (2025, 2, 7)
      else if s = lit ''Monday, 1 January 99999'' then OverflowError
      else ValueError)"

text \<open>
  A page section as the council's page lays it out: the heading, then a container with the
  next-collection block and the list of future dates.
\<close>

definition section0 :: "string \<Rightarrow> string \<Rightarrow> string list \<Rightarrow> node list" where
  "section0 heading nxt items =
     [Tag (lit ''div'') [lit ''u-mb-4''] [Text (lit heading)],
      Tag (lit ''div'') []
        [Tag (lit ''div'') [lit ''u-mb-2''] [Text (lit nxt)],
         Tag (lit ''div'') [lit ''colldates'']
           [Tag (lit ''ul'') [] (map (\<lambda>i. Tag (lit ''li'') [] [Text (lit i)]) items)]]]"

text \<open>A page whose list repeats the date of the next collection.\<close>

definition page0 :: "node list" where
  "page0 = section0 '' Household waste '' ''Next collection Friday, 10 January 2025''
             [''Saturday, 7 February 2025'', ''Friday, 10 January 2025'']"

text \<open>A page with two bin types collected on the same day.\<close>

definition page1 :: "node list" where
  "page1 =
     section0 ''Household waste'' ''Next collection Friday, 10 January 2025'' [] @
     section0 ''Mixed recycling'' ''Next collection Friday, 10 January 2025'' []"

text \<open>Two iteration orders of a set: by insertion, and with the household records last.\<close>

definition slot0 :: "collection hashing" where
  "slot0 r = 0"

definition slot1 :: "collection hashing" where
  "slot1 r = (if fst r = lit ''Household waste'' then 1 else 0)"

text \<open>A list item that mentions two dates, and one whose date does not exist.\<close>

definition li0 :: node where
  "li0 = Tag (lit ''li'') []
     [Text (lit '' Friday, 10 January 2025 ''), Tag (lit ''b'') [] [Text (lit ''then'')],
      Text (lit '' Saturday, 7 February 2025'')]"

definition li_bad :: node where
  "li_bad = Tag (lit ''li'') [] [Text (lit ''Friday, 99 January 2025'')]"

text \<open>Three blocks of a container: the second has the marker and no date.\<close>

definition blocks0 :: "node list" where
  "blocks0 =
     [Tag (lit ''div'') [lit ''u-mb-2''] [Text (lit ''Your bin days'')],
      Tag (lit ''div'') [lit ''u-mb-2''] [Text (lit ''Next collection TBD'')],
      Tag (lit ''div'') [lit ''u-mb-2''] [Text (lit ''Next collection Friday, 10 January 2025'')]]"


text \<open>
  A run in which no capital sigma is final and lines 96 and 97 raise on 9999-12-31 alone.
\<close>

definition final_sigma0 :: "pystr \<Rightarrow> nat \<Rightarrow> bool" where
  "final_sigma0 s i = False"

definition date_ok0 :: "date \<Rightarrow> bool" where
  "date_ok0 d \<longleftrightarrow> d \<noteq> (9999, 12, 31)"

text \<open>
  Two records in ascending order of date, the two events the loop builds for them, and the
  calendar that holds the two.
\<close>

definition records1 :: "collection list" where
  "records1 =
     [(lit ''Household waste'', (2025, 1, 10)), (lit ''Mixed recycling'', (2025, 2, 7))]"

definition event1_0 :: event where
  "event1_0 = new_event final_sigma0 True 0 (lit ''Household waste'', (2025, 1, 10))"

definition event1_1 :: event where
  "event1_1 = new_event final_sigma0 True 1 (lit ''Mixed recycling'', (2025, 2, 7))"

definition calendar1 :: calendar where
  "calendar1 = \<lparr>events = {event1_1, event1_0}\<rparr>"

text \<open>A label that starts with a capital E with acute accent.\<close>

definition label_eco :: pystr where
  "label_eco = [0xC9, 0x63, 0x6F] @ lit '' BINS''"

section \<open>Properties of the string operations\<close>

lemma apart_below: "range_hi r2 < image_lo r1 \<Longrightarrow> apart r1 r2"
  by (cases r1; cases r2) (simp add: apart_def range_hi_def image_lo_def)

lemma apart_above: "image_hi r1 < range_lo r2 \<Longrightarrow> apart r1 r2"
  by (cases r1; cases r2) (simp add: apart_def range_lo_def image_hi_def)

lemma apart_down_sound:
  "sorted_wrt (\<lambda>x y. range_hi y \<le> range_hi x) l \<Longrightarrow> apart_down r1 l \<Longrightarrow>
   \<forall>r2 \<in> set l. apart r1 r2"
proof (induction l)
  case Nil
  then show ?case by simp
next
  case (Cons r2 l)
  show ?case
  proof (cases "range_hi r2 < image_lo r1")
    case True
    have "range_hi x < image_lo r1" if "x \<in> set (r2 # l)" for x
      using that True Cons.prems(1) by auto
    then have "apart r1 x" if "x \<in> set (r2 # l)" for x
      using that by (intro apart_below)
    then show ?thesis by blast
  next
    case False
    with Cons show ?thesis by auto
  qed
qed

lemma apart_up_sound:
  "sorted_wrt (\<lambda>x y. range_lo x \<le> range_lo y) l \<Longrightarrow> apart_up r1 l \<Longrightarrow>
   \<forall>r2 \<in> set l. apart r1 r2"
proof (induction l)
  case Nil
  then show ?case by simp
next
  case (Cons r2 l)
  show ?case
  proof (cases "image_hi r1 < range_lo r2")
    case True
    have "image_hi r1 < range_lo x" if "x \<in> set (r2 # l)" for x
      using that True Cons.prems(1) by auto
    then have "apart r1 x" if "x \<in> set (r2 # l)" for x
      using that by (intro apart_above)
    then show ?thesis by blast
  next
    case False
    with Cons show ?thesis by auto
  qed
qed

lemma apart_walk_sound:
  "sorted_wrt (\<lambda>x y. range_hi x \<le> range_hi y) (rev before @ after) \<Longrightarrow>
   sorted_wrt (\<lambda>x y. range_lo x \<le> range_lo y) after \<Longrightarrow>
   apart_walk before after \<Longrightarrow>
   \<forall>r1 \<in> set after. \<forall>r2 \<in> set before \<union> set after. apart r1 r2"
proof (induction after arbitrary: before)
  case Nil
  then show ?case by simp
next
  case (Cons r after)
  from Cons.prems(3) have w: "apart_down r before" "apart_up r (r # after)"
    "apart_walk (r # before) after" by simp_all
  from Cons.prems(1) have "sorted_wrt (\<lambda>x y. range_hi x \<le> range_hi y) (rev before)"
    by (simp add: sorted_wrt_append)
  then have "sorted_wrt (\<lambda>x y. range_hi y \<le> range_hi x) before"
    by (simp add: sorted_wrt_rev)
  then have a: "\<forall>r2 \<in> set before. apart r r2"
    using w(1) by (rule apart_down_sound)
  have b: "\<forall>r2 \<in> set (r # after). apart r r2"
    using Cons.prems(2) w(2) by (rule apart_up_sound)
  have s1: "sorted_wrt (\<lambda>x y. range_hi x \<le> range_hi y) (rev (r # before) @ after)"
    using Cons.prems(1) by simp
  have s2: "sorted_wrt (\<lambda>x y. range_lo x \<le> range_lo y) after"
    using Cons.prems(2) by simp
  from Cons.IH [OF s1 s2 w(3)] a b show ?case by auto
qed

lemma lower_ranges_walk: "apart_walk [] lower_ranges"
  by code_simp

lemma lower_ranges_sorted_lo: "sorted (map range_lo lower_ranges)"
  by code_simp

lemma lower_ranges_sorted_hi: "sorted (map range_hi lower_ranges)"
  by code_simp

lemma lower_ranges_special: "list_all (\<lambda>r. apart r (0x0130, 0x0130, 1, 0)) lower_ranges"
  by code_simp

lemma lower_ranges_apart:
  assumes "r1 \<in> set lower_ranges" and "r2 \<in> set ((0x0130, 0x0130, 1, 0) # lower_ranges)"
  shows "apart r1 r2"
proof -
  have "\<forall>r1 \<in> set lower_ranges. \<forall>r2 \<in> set [] \<union> set lower_ranges. apart r1 r2"
  proof (rule apart_walk_sound)
    show "sorted_wrt (\<lambda>x y. range_hi x \<le> range_hi y) (rev [] @ lower_ranges)"
      using lower_ranges_sorted_hi by (simp add: sorted_map)
    show "sorted_wrt (\<lambda>x y. range_lo x \<le> range_lo y) lower_ranges"
      using lower_ranges_sorted_lo by (simp add: sorted_map)
    show "apart_walk [] lower_ranges"
      by (rule lower_ranges_walk)
  qed
  moreover have "\<forall>r \<in> set lower_ranges. apart r (0x0130, 0x0130, 1, 0)"
    using lower_ranges_special by (simp only: list_all_iff)
  ultimately show ?thesis
    using assms by auto
qed

lemma apart_sound:
  assumes "in_case_range (lo1, hi1, step1, d1) c" and "apart (lo1, hi1, step1, d1) r2"
  shows "\<not> in_case_range r2 (c + d1)"
proof (cases r2)
  case (fields lo2 hi2 step2 d2)
  from assms(1) have c: "lo1 \<le> c" "c \<le> hi1" "(c - lo1) mod step1 = 0"
    by (simp_all add: in_case_range_def)
  from assms(2) fields consider
    "hi1 + d1 < lo2" | "hi2 < lo1 + d1"
    | "step1 = step2" "(lo1 + d1 - lo2) mod step2 \<noteq> 0"
    | "lo1 = hi1" "\<not> in_case_range r2 (lo1 + d1)"
    by (auto simp: apart_def)
  then show ?thesis
  proof cases
    case 1
    with c show ?thesis by (simp add: fields in_case_range_def)
  next
    case 2
    with c show ?thesis by (simp add: fields in_case_range_def)
  next
    case 3
    have "(c + d1 - lo2) mod step2 = ((c - lo1) + (lo1 + d1 - lo2)) mod step2"
      by (simp add: algebra_simps)
    also have "\<dots> = ((c - lo1) mod step2 + (lo1 + d1 - lo2) mod step2) mod step2"
      by (rule mod_add_eq [symmetric])
    also have "\<dots> = (lo1 + d1 - lo2) mod step2"
      using c(3) 3(1) by simp
    finally show ?thesis
      using 3(2) by (simp add: fields in_case_range_def)
  next
    case 4
    with c have "c = lo1" by simp
    with 4 show ?thesis by simp
  qed
qed

lemma case_map_cases:
  "(case_map R c = c \<and> (\<forall>r \<in> set R. \<not> in_case_range r c)) \<or>
   (\<exists>lo hi step d. (lo, hi, step, d) \<in> set R \<and> in_case_range (lo, hi, step, d) c \<and>
      case_map R c = c + d)"
proof (induction R)
  case Nil
  then show ?case by simp
next
  case (Cons r R)
  show ?case
  proof (cases "in_case_range r c")
    case True
    obtain lo hi step d where r: "r = (lo, hi, step, d)" by (cases r)
    with True have "case_map (r # R) c = c + d" by simp
    with True r show ?thesis by auto
  next
    case False
    with Cons.IH show ?thesis by auto
  qed
qed

lemma case_map_miss: "\<forall>r \<in> set R. \<not> in_case_range r c \<Longrightarrow> case_map R c = c"
  by (induction R) simp_all

lemma sigma_in_lower_ranges: "\<exists>r \<in> set lower_ranges. in_case_range r 0x03A3"
proof -
  have "case_map lower_ranges 0x03A3 = 0x03C3" by code_simp
  then have "case_map lower_ranges 0x03A3 \<noteq> 0x03A3" by simp
  with case_map_cases [of lower_ranges "0x03A3"] show ?thesis by blast
qed

lemma lower_stable_outputs:
  "lower_stable 0x0069" "lower_stable 0x0307" "lower_stable 0x03C2" "lower_stable 0x03C3"
  unfolding lower_stable_def to_lower_full_def by code_simp+

lemma lower_stable_miss:
  assumes "c \<noteq> 0x0130" and "\<forall>r \<in> set lower_ranges. \<not> in_case_range r c"
  shows "lower_stable c"
proof -
  from assms(2) sigma_in_lower_ranges have "c \<noteq> 0x03A3" by blast
  moreover from assms(2) have "case_map lower_ranges c = c" by (rule case_map_miss)
  ultimately show ?thesis using assms(1) by (simp add: lower_stable_def to_lower_full_def)
qed

lemma to_lower_full_stable:
  assumes "c' \<in> set (to_lower_full c)"
  shows "lower_stable c'"
proof (cases "c = 0x0130")
  case True
  with assms show ?thesis by (auto simp: to_lower_full_def lower_stable_outputs)
next
  case False
  with assms have c': "c' = case_map lower_ranges c" by (simp add: to_lower_full_def)
  from case_map_cases [of lower_ranges c] show ?thesis
  proof
    assume "case_map lower_ranges c = c \<and> (\<forall>r \<in> set lower_ranges. \<not> in_case_range r c)"
    with c' False show ?thesis by (simp add: lower_stable_miss)
  next
    assume "\<exists>lo hi step d. (lo, hi, step, d) \<in> set lower_ranges \<and>
      in_case_range (lo, hi, step, d) c \<and> case_map lower_ranges c = c + d"
    then obtain lo hi step d where r: "(lo, hi, step, d) \<in> set lower_ranges"
      "in_case_range (lo, hi, step, d) c" "case_map lower_ranges c = c + d" by blast
    have miss: "\<not> in_case_range r2 (c + d)"
      if "r2 \<in> set ((0x0130, 0x0130, 1, 0) # lower_ranges)" for r2
      using r(2) lower_ranges_apart [OF r(1) that] by (rule apart_sound)
    have "\<not> in_case_range (0x0130, 0x0130, 1, 0) (c + d)"
      by (rule miss) simp
    then have "c + d \<noteq> 0x0130" by (auto simp: in_case_range_def)
    moreover have "\<forall>r2 \<in> set lower_ranges. \<not> in_case_range r2 (c + d)"
      using miss by simp
    ultimately have "lower_stable (c + d)" by (rule lower_stable_miss)
    with c' r(3) show ?thesis by simp
  qed
qed

lemma lower_ucs4_stable: "c' \<in> set (lower_ucs4 fs s i) \<Longrightarrow> lower_stable c'"
  by (auto simp: lower_ucs4_def lower_stable_outputs to_lower_full_stable split: if_splits)

lemma lower_stable_all: "c' \<in> set (lower fs s) \<Longrightarrow> lower_stable c'"
  by (auto simp: lower_def lower_ucs4_stable)

lemma lower_ucs4_fixed: "lower_stable (s ! i) \<Longrightarrow> lower_ucs4 fs s i = [s ! i]"
  by (simp add: lower_ucs4_def lower_stable_def)

lemma lower_tail_fixed:
  assumes "\<forall>i. k \<le> i \<and> i < length s \<longrightarrow> lower_stable (s ! i)"
  shows "concat (map (lower_ucs4 fs s) [k ..< length s]) = drop k s"
proof -
  have "map (lower_ucs4 fs s) [k ..< length s] = map (\<lambda>i. [s ! i]) [k ..< length s]"
    using assms by (intro map_cong refl) (simp add: lower_ucs4_fixed)
  then have "concat (map (lower_ucs4 fs s) [k ..< length s]) =
      concat (map (\<lambda>i. [s ! i]) [k ..< length s])"
    by (rule arg_cong)
  also have "\<dots> = map ((!) s) [k ..< length s]"
    by simp
  finally have "concat (map (lower_ucs4 fs s) [k ..< length s]) = map ((!) s) [k ..< length s]" .
  also have "map ((!) s) [k ..< length s] = drop k (map ((!) s) [0 ..< length s])"
    by (simp add: drop_map)
  also have "\<dots> = drop k s"
    by (simp add: map_nth)
  finally show ?thesis .
qed

lemma lower_idem: "lower fs' (lower fs s) = lower fs s"
proof -
  have "\<forall>i. 0 \<le> i \<and> i < length (lower fs s) \<longrightarrow> lower_stable (lower fs s ! i)"
    using lower_stable_all [of _ fs s] by (auto intro: nth_mem)
  from lower_tail_fixed [OF this] show ?thesis by (simp add: lower_def)
qed

lemma capitalize_fixed:
  assumes "to_title_full c = [c]" and "\<forall>x \<in> set s. lower_stable x"
  shows "capitalize fs (c # s) = c # s"
proof -
  have "\<forall>i. 1 \<le> i \<and> i < length (c # s) \<longrightarrow> lower_stable ((c # s) ! i)"
    using assms(2) by (auto simp: nth_Cons split: nat.splits)
  from lower_tail_fixed [OF this, of fs] assms(1) show ?thesis
    by (simp add: capitalize_def)
qed

lemma title_P: "to_title_full 0x50 = [0x50]"
  by code_simp

lemma strip_space_Cons: "isspace c \<Longrightarrow> strip (c # s) = strip s"
  by (simp add: strip_def lstrip_def)

lemma trimmed_strip: "trimmed (strip s)"
proof -
  define t where "t = dropWhile isspace s"
  define u where "u = rev (dropWhile isspace (rev t))"
  have su: "strip s = u"
    by (simp add: strip_def lstrip_def rstrip_def u_def t_def)
  have split: "t = u @ rev (takeWhile isspace (rev t))"
    unfolding u_def by (metis rev_append rev_rev_ident takeWhile_dropWhile_id)
  show ?thesis
  proof (cases u)
    case Nil
    with su show ?thesis by (simp add: trimmed_def)
  next
    case (Cons c cs)
    then have une: "u \<noteq> []" by simp
    have ru: "rev u = dropWhile isspace (rev t)" by (simp add: u_def)
    with une have "dropWhile isspace (rev t) \<noteq> []" by (metis rev_is_Nil_conv)
    then have "\<not> isspace (hd (dropWhile isspace (rev t)))" by (rule hd_dropWhile)
    then have "\<not> isspace (hd (rev u))" by (simp add: ru)
    then have l: "\<not> isspace (last u)" using une by (simp add: hd_rev)
    from Cons split have tne: "t \<noteq> []" by auto
    then have "\<not> isspace (hd t)" unfolding t_def by (rule hd_dropWhile)
    moreover have "hd t = c" using split Cons by (metis hd_append2 list.sel(1) list.distinct(1))
    ultimately have "\<not> isspace c" by simp
    with l Cons su show ?thesis by (simp add: trimmed_def)
  qed
qed

lemma strip_trimmed: "trimmed s \<Longrightarrow> strip s = s"
proof (cases s)
  case Nil
  then show ?thesis by (simp add: strip_def lstrip_def rstrip_def)
next
  case (Cons c cs)
  assume "trimmed s"
  with Cons have a: "\<not> isspace c" and b: "\<not> isspace (last s)" by (simp_all add: trimmed_def)
  from a Cons have l: "lstrip s = s" by (simp add: lstrip_def)
  obtain x xs where r: "rev s = x # xs" using Cons by (cases "rev s") auto
  then have "x = last s" using Cons by (metis hd_rev list.sel(1))
  with b have "dropWhile isspace (x # xs) = x # xs" by simp
  then have "dropWhile isspace (rev s) = rev s" by (simp only: r)
  then have "rstrip s = s" by (simp add: rstrip_def)
  with l show ?thesis by (simp add: strip_def)
qed

lemma title_unknown: "EMOJI b = None \<Longrightarrow> SHORT b = None \<Longrightarrow> title b = strip b"
  by (simp add: title_def dict_get_def lit_def strip_space_Cons isspace_def)

lemma title_known:
  "title (lit ''Household waste'') = [0x1F5D1, 0xFE0F] @ lit '' Household Waste''"
  "title (lit ''Mixed recycling'') = [0x267B, 0xFE0F] @ lit '' Recycling''"
  "title (lit ''Garden waste recycling'') = [0x1F33F] @ lit '' Garden''"
  by (simp_all add: title_def dict_get_def EMOJI_def SHORT_def lit_def strip_def lstrip_def
      rstrip_def isspace_def)

lemma title_textile: "title (lit ''Textile recycling'') = lit ''Textile recycling''"
  by (simp add: title_def dict_get_def EMOJI_def SHORT_def lit_def strip_def lstrip_def
      rstrip_def isspace_def)

section \<open>Properties of the event mapper\<close>

lemma ev_uid_new_event [simp]: "ev_uid (new_event fs da k r) = k"
  by (simp add: new_event_def split_beta)

lemma new_event_fields:
  "ev_name (new_event fs da k (b, d)) = title b"
  "ev_description (new_event fs da k (b, d)) = description fs b"
  "ev_begin (new_event fs da k (b, d)) = d"
  "ev_categories (new_event fs da k (b, d)) = [b]"
  by (simp_all add: new_event_def)

lemma build_loop_Some:
  "\<forall>r \<in> set rs. ok (snd r) \<Longrightarrow>
   build_loop fs ok da k cal rs =
     Some (cal\<lparr>events := events cal \<union> (\<lambda>i. new_event fs da (k + i) (rs ! i)) ` {..<length rs}\<rparr>)"
proof (induction rs arbitrary: k cal)
  case Nil
  then show ?case by simp
next
  case (Cons r rs)
  have img: "(\<lambda>i. new_event fs da (k + i) ((r # rs) ! i)) ` {..<Suc (length rs)} =
      insert (new_event fs da k r) ((\<lambda>i. new_event fs da (Suc (k + i)) (rs ! i)) ` {..<length rs})"
    by (simp add: lessThan_Suc_eq_insert_0 image_image)
  from Cons.prems have step: "build_loop fs ok da k cal (r # rs) =
      build_loop fs ok da (Suc k) (events_add cal (new_event fs da k r)) rs"
    by (simp add: build_event_def)
  have ih: "build_loop fs ok da (Suc k) (events_add cal (new_event fs da k r)) rs =
      Some ((events_add cal (new_event fs da k r))
        \<lparr>events := events (events_add cal (new_event fs da k r)) \<union>
           (\<lambda>i. new_event fs da (Suc k + i) (rs ! i)) ` {..<length rs}\<rparr>)"
    using Cons.prems by (intro Cons.IH) simp
  show ?case
    by (simp only: step ih) (simp add: img events_add_def)
qed

lemma build_loop_None:
  "\<not> (\<forall>r \<in> set rs. ok (snd r)) \<Longrightarrow> build_loop fs ok da k cal rs = None"
  by (induction rs arbitrary: k cal) (auto simp: build_event_def)

lemma build_calendar_Some:
  "\<forall>r \<in> set rs. ok (snd r) \<Longrightarrow>
   build_calendar fs ok da rs =
     Some \<lparr>events = (\<lambda>i. new_event fs da i (rs ! i)) ` {..<length rs}\<rparr>"
  by (simp add: build_calendar_def build_loop_Some Calendar_def)

lemma build_calendar_SomeD:
  assumes "build_calendar fs ok da rs = Some cal"
  shows "\<forall>r \<in> set rs. ok (snd r)"
    and "events cal = (\<lambda>i. new_event fs da i (rs ! i)) ` {..<length rs}"
proof -
  show ok: "\<forall>r \<in> set rs. ok (snd r)"
    using assms build_loop_None [of rs ok fs da 0 Calendar]
    by (auto simp: build_calendar_def)
  from build_calendar_Some [OF ok, of fs da] assms
  show "events cal = (\<lambda>i. new_event fs da i (rs ! i)) ` {..<length rs}"
    by auto
qed

lemma build_calendar_member:
  assumes "build_calendar fs ok da rs = Some cal" and "ev \<in> events cal"
  shows "ev_uid ev < length rs \<and> build_event fs ok da (ev_uid ev) (rs ! ev_uid ev) = Some ev"
proof -
  from build_calendar_SomeD [OF assms(1)] assms(2)
  obtain i where i: "i < length rs" "ev = new_event fs da i (rs ! i)"
    and ok: "\<forall>r \<in> set rs. ok (snd r)" by auto
  from i(1) ok have "ok (snd (rs ! i))" by simp
  with i show ?thesis by (simp add: build_event_def)
qed

lemma inj_on_new_event: "inj_on (\<lambda>i. new_event fs da i (rs ! i)) A"
  by (rule inj_onI) (metis ev_uid_new_event)

lemma description_eq:
  "description fs b = lit ''Put out the '' @ lower fs b @ lit '' bin.''"
proof -
  have st: "\<forall>x \<in> set (lit ''ut out the '' @ lower fs b @ lit '' bin.''). lower_stable x"
  proof -
    have "list_all lower_stable (lit ''ut out the '')" "list_all lower_stable (lit '' bin.'')"
      by code_simp+
    then show ?thesis
      by (auto simp: list_all_iff lower_stable_all)
  qed
  have "lit ''Put out the '' @ lower fs b @ lit '' bin.'' =
      0x50 # (lit ''ut out the '' @ lower fs b @ lit '' bin.'')"
    by (simp add: lit_def)
  then show ?thesis
    using capitalize_fixed [OF title_P st, of fs] by (simp add: description_def)
qed

lemma description_template_eq:
  "capitalize_first_only (description_template fs b) =
   lit ''Put out the '' @ lower fs b @ lit '' bin.''"
proof -
  have "description_template fs b = 0x50 # (lit ''ut out the '' @ lower fs b @ lit '' bin.'')"
    by (simp add: description_template_def lit_def)
  then show ?thesis
    by (simp add: title_P lit_def)
qed

lemma lower_Mixed: "lower fs (lit ''Mixed recycling'') = lit ''mixed recycling''"
  by (simp add: lower_def lit_def upt_rec lower_ucs4_def) code_simp

lemma lower_eco: "lower final_sigma0 label_eco = [0xE9, 0x63, 0x6F] @ lit '' bins''"
  by code_simp

lemma strip_eq_iff_trimmed: "strip b = b \<longleftrightarrow> trimmed b"
  using trimmed_strip [of b] strip_trimmed [of b] by auto

lemma event1_distinct: "event1_1 \<noteq> event1_0"
proof
  assume "event1_1 = event1_0"
  then have "ev_uid event1_1 = ev_uid event1_0" by simp
  then show False by (simp add: event1_0_def event1_1_def)
qed

lemma food_eval:
  "EMOJI (lit ''Food waste'') = None" "SHORT (lit ''Food waste'') = None"
  "trimmed (lit ''Food waste'')"
  by (simp_all add: EMOJI_def SHORT_def lit_def trimmed_def isspace_def)

lemma cans_eval:
  "EMOJI (lit '' Cans'') = None" "SHORT (lit '' Cans'') = None"
  "strip (lit '' Cans'') = lit ''Cans''" "lit ''Cans'' \<noteq> lit '' Cans''"
  by (simp_all add: EMOJI_def SHORT_def lit_def strip_def lstrip_def rstrip_def isspace_def)

section \<open>Properties of the extractor\<close>

subsection \<open>The set and the sort\<close>

lemma count_list_distinct: "distinct xs \<Longrightarrow> x \<in> set xs \<Longrightarrow> count_list xs x = 1"
  by (induction xs) (auto simp: count_list_0_iff)

lemma set_set_add_all: "set (set_add_all acc xs) = set acc \<union> set xs"
  by (induction xs arbitrary: acc) auto

lemma distinct_set_add_all: "distinct acc \<Longrightarrow> distinct (set_add_all acc xs)"
  by (induction xs arbitrary: acc) auto

lemma set_set_iter: "set (set_iter slot xs) = set xs"
  by (simp add: set_iter_def set_set_add_all)

lemma distinct_set_iter: "distinct (set_iter slot xs)"
  by (simp add: set_iter_def distinct_set_add_all)

lemma mset_set_iter: "mset (set_iter slot xs) = mset (set_iter slot' xs)"
  using distinct_set_iter [of slot xs] distinct_set_iter [of slot' xs]
  by (simp add: set_eq_iff_mset_eq_distinct [symmetric] set_set_iter)

lemma sorted_sorted_unique: "sorted (map snd (sorted_unique slot cs))"
  by (simp add: sorted_unique_def)

lemma distinct_sorted_unique: "distinct (sorted_unique slot cs)"
  by (simp add: sorted_unique_def distinct_set_iter)

lemma set_sorted_unique: "set (sorted_unique slot cs) = set cs"
  by (simp add: sorted_unique_def set_set_iter)

lemma map_snd_sort_key: "map snd (sort_key snd xs) = sort (map snd xs)"
  by (rule properties_for_sort [symmetric]) simp_all

lemma dates_sorted_unique:
  "map snd (sorted_unique slot cs) = map snd (sorted_unique slot' cs)"
proof -
  have "mset (map snd (set_iter slot cs)) = mset (map snd (set_iter slot' cs))"
    using mset_set_iter [of slot cs slot'] by simp
  then have "sort (map snd (set_iter slot cs)) = sort (map snd (set_iter slot' cs))"
    by (intro properties_for_sort) simp_all
  then show ?thesis
    by (simp add: sorted_unique_def map_snd_sort_key)
qed

lemma sorted_unique_inj:
  assumes "inj_on snd (set cs)"
  shows "sorted_unique slot cs = sorted_unique slot' cs"
proof -
  have "sort_key snd (set_iter slot cs) = sort_key snd (set_iter slot' cs)"
  proof (rule sort_key_inj_key_eq)
    show "mset (set_iter slot cs) = mset (sort_key snd (set_iter slot' cs))"
      using mset_set_iter [of slot cs slot'] by simp
    show "inj_on snd (set (set_iter slot cs))"
      using assms by (simp add: set_set_iter)
    show "sorted (map snd (sort_key snd (set_iter slot' cs)))"
      by simp
  qed
  then show ?thesis by (simp add: sorted_unique_def)
qed

subsection \<open>The state of the loop\<close>

lemma collections_print [simp]: "collections (print ln st) = collections st"
  by (simp add: print_def)

lemma stdout_append_collection [simp]: "stdout (append_collection r st) = stdout st"
  by (simp add: append_collection_def)

lemma collections_append_collection [simp]:
  "collections (append_collection r st) = collections st @ [r]"
  by (simp add: append_collection_def)

lemma next_collection_collections:
  "collections (next_collection dp v b dvs st) =
   collections st @ collections (next_collection dp False b dvs scrape_state0)"
  by (induction dvs) (simp_all add: scrape_state0_def Let_def split: option.splits)

lemma next_collection_at_most_one:
  "length (collections (next_collection dp False b dvs scrape_state0)) \<le> 1"
  by (induction dvs) (simp_all add: scrape_state0_def Let_def split: option.splits)

lemma next_collection_quiet: "stdout (next_collection dp False b dvs st) = stdout st"
  by (induction dvs) (simp_all add: Let_def split: option.splits)

lemma future_item_collections:
  "collections (future_item dp b st li) =
   collections st @
     (case extract_date dp (get_text_strip (lit '' '') li) of None \<Rightarrow> [] | Some d \<Rightarrow> [(b, d)])"
  by (simp add: future_item_def split: option.splits)

lemma future_item_stdout: "stdout (future_item dp b st li) = stdout st"
  by (simp add: future_item_def split: option.splits)

lemma foldl_future_item_collections:
  "collections st = collections st' \<Longrightarrow>
   collections (foldl (future_item dp b) st lis) = collections (foldl (future_item dp b) st' lis)"
  by (induction lis arbitrary: st st') (simp_all add: future_item_collections)

lemma foldl_future_item_stdout: "stdout (foldl (future_item dp b) st lis) = stdout st"
  by (induction lis arbitrary: st) (simp_all add: future_item_stdout)

lemma scrape_section_collections:
  assumes "collections st = collections st'"
  shows "collections (scrape_section dp v els st i) = collections (scrape_section dp v' els st' i)"
proof -
  have n: "\<And>b dvs. collections (next_collection dp v b dvs st) =
      collections (next_collection dp v' b dvs st')"
    using assms next_collection_collections [of dp v _ _ st]
      next_collection_collections [of dp v' _ _ st'] by simp
  show ?thesis
    unfolding scrape_section_def Let_def
    by (intro foldl_future_item_collections) (simp add: n assms split: option.splits)
qed

lemma scrape_section_quiet: "stdout (scrape_section dp False els st i) = stdout st"
  by (simp add: scrape_section_def Let_def foldl_future_item_stdout next_collection_quiet
      split: option.splits)

lemma foldl_scrape_section_collections:
  "collections st = collections st' \<Longrightarrow>
   collections (foldl (scrape_section dp v els) st is) =
   collections (foldl (scrape_section dp v' els) st' is)"
proof (induction "is" arbitrary: st st')
  case Nil
  then show ?case by simp
next
  case (Cons i "is")
  from Cons.prems have "collections (scrape_section dp v els st i) =
      collections (scrape_section dp v' els st' i)"
    by (rule scrape_section_collections)
  then show ?case by (simp add: Cons.IH)
qed

lemma foldl_scrape_section_quiet:
  "stdout (foldl (scrape_section dp False els) st is) = stdout st"
  by (induction "is" arbitrary: st) (simp_all add: scrape_section_quiet)

lemma scrape_loop_collections:
  "collections (scrape_loop dp v c) = collections (scrape_loop dp v' c)"
  by (simp add: scrape_loop_def Let_def foldl_scrape_section_collections)

lemma scrape_loop_quiet: "stdout (scrape_loop dp False c) = []"
  by (simp add: scrape_loop_def Let_def foldl_scrape_section_quiet scrape_state0_def)

lemma next_collection_skip:
  "\<forall>x \<in> set pre. \<not> contains (lit ''Next collection'') (get_text x) \<Longrightarrow>
   next_collection dp v b (pre @ dvs) st = next_collection dp v b dvs st"
  by (induction pre) simp_all

lemma re_search_leftmost:
  "re_search p s = Some m \<Longrightarrow>
   \<exists>i n. i \<le> length s \<and> re_match p (drop i s) = Some n \<and> m = take n (drop i s) \<and>
     (\<forall>j<i. re_match p (drop j s) = None)"
proof (induction s)
  case Nil
  then show ?case by (auto split: option.splits)
next
  case (Cons c s)
  show ?case
  proof (cases "re_match p (c # s)")
    case (Some n)
    with Cons.prems have "m = take n (c # s)" by simp
    with Some show ?thesis by (intro exI [of _ 0] exI [of _ n]) simp
  next
    case None
    with Cons.prems have "re_search p s = Some m" by simp
    from Cons.IH [OF this] obtain i n where
      i: "i \<le> length s" "re_match p (drop i s) = Some n" "m = take n (drop i s)"
      "\<forall>j<i. re_match p (drop j s) = None" by blast
    have "\<forall>j<Suc i. re_match p (drop j (c # s)) = None"
    proof (intro allI impI)
      fix j assume "j < Suc i"
      then show "re_match p (drop j (c # s)) = None"
        using None i(4) by (cases j) simp_all
    qed
    with i show ?thesis by (intro exI [of _ "Suc i"] exI [of _ n]) simp
  qed
qed

subsection \<open>The labels of the records\<close>

text \<open>Every \<open>bin_type\<close> the extractor records has no whitespace at either end.\<close>

lemma join_empty_sep: "join [] xs = concat xs"
  by (induction "[]::pystr" xs rule: join.induct) simp_all

lemma trimmed_append:
  assumes "x \<noteq> []" "trimmed x" "trimmed y"
  shows "trimmed (x @ y)"
proof (cases y)
  case Nil
  with assms show ?thesis by simp
next
  case (Cons c cs)
  with assms show ?thesis
    by (cases x) (simp_all add: trimmed_def)
qed

lemma trimmed_concat:
  "\<forall>x \<in> set xs. x \<noteq> [] \<and> trimmed x \<Longrightarrow> trimmed (concat xs)"
  by (induction xs) (simp_all add: trimmed_append, simp add: trimmed_def)

lemma trimmed_get_text_strip: "trimmed (get_text_strip [] n)"
  unfolding get_text_strip_def join_empty_sep
  by (rule trimmed_concat) (auto simp: trimmed_strip)

lemma trimmed_Bin: "trimmed (lit ''Bin'')"
  by (simp add: trimmed_def lit_def isspace_def)

lemma next_collection_labels:
  "r \<in> set (collections (next_collection dp v b dvs st)) \<Longrightarrow>
   r \<in> set (collections st) \<or> fst r = b"
  by (induction dvs) (auto simp: Let_def split: if_splits option.splits)

lemma future_item_labels:
  "r \<in> set (collections (future_item dp b st li)) \<Longrightarrow> r \<in> set (collections st) \<or> fst r = b"
  by (auto simp: future_item_collections split: option.splits)

lemma foldl_future_item_labels:
  "r \<in> set (collections (foldl (future_item dp b) st lis)) \<Longrightarrow>
   r \<in> set (collections st) \<or> fst r = b"
proof (induction lis arbitrary: st)
  case Nil
  then show ?case by simp
next
  case (Cons li lis)
  from Cons.prems have "r \<in> set (collections (foldl (future_item dp b) (future_item dp b st li) lis))"
    by simp
  from Cons.IH [OF this] show ?case
    using future_item_labels by blast
qed

lemma scrape_section_labels:
  assumes "\<forall>r \<in> set (collections st). trimmed (fst r)"
  shows "\<forall>r \<in> set (collections (scrape_section dp v els st i)). trimmed (fst r)"
proof
  fix r assume r: "r \<in> set (collections (scrape_section dp v els st i))"
  define b where "b = (case find_previous els i of
      Some heading_tag \<Rightarrow> get_text_strip [] heading_tag | None \<Rightarrow> lit ''Bin'')"
  have tb: "trimmed b"
    by (simp add: b_def trimmed_get_text_strip trimmed_Bin split: option.splits)
  define st1 where "st1 = (case parent (els ! i) of
      Some container \<Rightarrow> next_collection dp v b (find_all_div (lit ''u-mb-2'') container) st
    | None \<Rightarrow> st)"
  have s: "scrape_section dp v els st i = foldl (future_item dp b) st1 (select_ul_li (els ! i))"
    unfolding scrape_section_def Let_def st1_def b_def by (rule refl)
  from r s have "r \<in> set (collections st1) \<or> fst r = b"
    using foldl_future_item_labels by metis
  moreover have "r \<in> set (collections st1) \<Longrightarrow> r \<in> set (collections st) \<or> fst r = b"
    unfolding st1_def using next_collection_labels by (auto split: option.splits)
  ultimately show "trimmed (fst r)"
    using assms tb by blast
qed

lemma foldl_scrape_section_labels:
  "\<forall>r \<in> set (collections st). trimmed (fst r) \<Longrightarrow>
   \<forall>r \<in> set (collections (foldl (scrape_section dp v els) st is)). trimmed (fst r)"
proof (induction "is" arbitrary: st)
  case Nil
  then show ?case by simp
next
  case (Cons i "is")
  from Cons.prems have "\<forall>r \<in> set (collections (scrape_section dp v els st i)). trimmed (fst r)"
    by (rule scrape_section_labels)
  from Cons.IH [OF this] show ?case by simp
qed

lemma scrape_soup_labels:
  "(b, d) \<in> set (snd (scrape_soup dp slot v c)) \<Longrightarrow> trimmed b"
proof -
  assume "(b, d) \<in> set (snd (scrape_soup dp slot v c))"
  then have m: "(b, d) \<in> set (collections (scrape_loop dp v c))"
    by (simp add: scrape_soup_def Let_def set_sorted_unique)
  have "\<forall>r \<in> set (collections (scrape_loop dp v c)). trimmed (fst r)"
    unfolding scrape_loop_def Let_def
    by (rule foldl_scrape_section_labels) (simp add: scrape_state0_def)
  with m show "trimmed b" by force
qed

subsection \<open>The sample inputs, evaluated\<close>

lemma blocks0_eval:
  "\<not> contains (lit ''Next collection'') (get_text (blocks0 ! 0))"
  "contains (lit ''Next collection'') (get_text (blocks0 ! 1))"
  "extract_date dtparse0 (get_text (blocks0 ! 1)) = None"
  by code_simp+

lemma li_bad_eval:
  "re_search DATE_RE (get_text_strip (lit '' '') li_bad) = Some (lit ''Friday, 99 January 2025'')"
  "dtparse0 (lit ''Friday, 99 January 2025'') = ValueError"
  by code_simp+

lemma li0_eval:
  "get_text_strip (lit '' '') li0 = lit ''Friday, 10 January 2025 then Saturday, 7 February 2025''"
  "extract_date dtparse0 (get_text_strip (lit '' '') li0) = Some (2025, 1, 10)"
  by code_simp+

lemma page0_eval:
  "collections (scrape_loop dtparse0 False page0) =
    [(lit ''Household waste'', (2025, 1, 10)), (lit ''Household waste'', (2025, 2, 7)),
     (lit ''Household waste'', (2025, 1, 10))]"
  "snd (scrape_soup dtparse0 slot0 False page0) =
    [(lit ''Household waste'', (2025, 1, 10)), (lit ''Household waste'', (2025, 2, 7))]"
  by code_simp+

lemma page1_eval:
  "snd (scrape_soup dtparse0 slot0 False page1) =
    [(lit ''Household waste'', (2025, 1, 10)), (lit ''Mixed recycling'', (2025, 1, 10))]"
  "snd (scrape_soup dtparse0 slot1 False page1) =
    [(lit ''Mixed recycling'', (2025, 1, 10)), (lit ''Household waste'', (2025, 1, 10))]"
  by code_simp+

lemma lit_neq: "lit ''Household waste'' \<noteq> lit ''Mixed recycling''"
  by (simp add: lit_def)

section \<open>Claims about the event mapper\<close>



text \<open>
  The calendar of two records in ascending order of date may be iterated with the later
  event first: the event at index 0 then has the categories of record 1, and the dates
  are not in ascending order.
\<close>

theorem calendar_iteration_not_in_record_order:
  "build_calendar final_sigma0 date_ok0 True records1 = Some calendar1 \<and>
   iterates (events calendar1) [event1_1, event1_0] \<and>
   set (ev_categories ([event1_1, event1_0] ! 0)) \<noteq> {fst (records1 ! 0)} \<and>
   map ev_begin [event1_1, event1_0] \<noteq> map snd records1 \<and>
   sorted (map snd records1) \<and>
   \<not> sorted (map ev_begin [event1_1, event1_0])"
proof -
  have a: "build_calendar final_sigma0 date_ok0 True records1 = Some calendar1"
    by (simp add: build_calendar_def records1_def build_event_def date_ok0_def events_add_def
        Calendar_def calendar1_def event1_0_def event1_1_def)
  have b: "iterates (events calendar1) [event1_1, event1_0]"
    using event1_distinct by (simp add: iterates_def calendar1_def)
  have n: "lit ''Mixed recycling'' \<noteq> lit ''Household waste''"
    by (simp add: lit_def)
  have c: "set (ev_categories ([event1_1, event1_0] ! 0)) \<noteq> {fst (records1 ! 0)}"
    using n by (simp add: event1_1_def new_event_fields records1_def)
  have d: "map ev_begin [event1_1, event1_0] \<noteq> map snd records1"
    by (simp add: event1_0_def event1_1_def new_event_fields records1_def)
  have e: "sorted (map snd records1)"
    by (simp add: records1_def)
  have f: "\<not> sorted (map ev_begin [event1_1, event1_0])"
    by (simp add: event1_0_def event1_1_def new_event_fields)
  from a b c d e f show ?thesis by blast
qed



text \<open>
  A label in neither table that starts with a space: the title of its event is not the
  label verbatim.
\<close>

theorem title_not_verbatim:
  "EMOJI (lit '' Cans'') = None \<and> SHORT (lit '' Cans'') = None \<and>
   map_option ev_name
     (build_event final_sigma0 date_ok0 True 0 (lit '' Cans'', (2025, 1, 10))) =
   Some (lit ''Cans'') \<and>
   lit ''Cans'' \<noteq> lit '' Cans''"
proof -
  have "map_option ev_name
     (build_event final_sigma0 date_ok0 True 0 (lit '' Cans'', (2025, 1, 10))) =
     Some (title (lit '' Cans''))"
    by (simp add: build_event_def date_ok0_def new_event_fields)
  also have "title (lit '' Cans'') = lit ''Cans''"
    using cans_eval by (simp add: title_unknown)
  finally show ?thesis using cans_eval by simp
qed

text \<open>
  C8. Description construction: every event of the calendar is built by the loop body from
  its record, and for every \<open>bin_type\<close> the body gives the event the description
  \<^verbatim>\<open>Put out the {bin_type, lowercased} bin.\<close> with its first character capitalised and
  everything after it as the template has it; \<^verbatim>\<open>Mixed recycling\<close> gives
  \<^verbatim>\<open>Put out the mixed recycling bin.\<close>
\<close>

theorem description_construction:
  "(build_calendar fs date_ok da rs = Some cal \<and> ev \<in> events cal \<longrightarrow>
      ev_uid ev < length rs \<and>
      build_event fs date_ok da (ev_uid ev) (rs ! ev_uid ev) = Some ev) \<and>
   (date_ok d \<longrightarrow> (\<exists>e. build_event fs date_ok da k (b, d) = Some e)) \<and>
   (build_event fs date_ok da k (b, d) = Some ev \<longrightarrow>
      ev_description ev = capitalize_first_only (description_template fs b) \<and>
      ev_description ev = lit ''Put out the '' @ lower fs b @ lit '' bin.'' \<and>
      (b = lit ''Mixed recycling'' \<longrightarrow>
         ev_description ev = lit ''Put out the mixed recycling bin.''))"
proof (intro conjI impI)
  assume "build_calendar fs date_ok da rs = Some cal \<and> ev \<in> events cal"
  then have "ev_uid ev < length rs \<and>
      build_event fs date_ok da (ev_uid ev) (rs ! ev_uid ev) = Some ev"
    using build_calendar_member by blast
  then show "ev_uid ev < length rs"
    and "build_event fs date_ok da (ev_uid ev) (rs ! ev_uid ev) = Some ev" by blast+
next
  assume "date_ok d"
  then show "\<exists>e. build_event fs date_ok da k (b, d) = Some e"
    by (simp add: build_event_def)
next
  assume "build_event fs date_ok da k (b, d) = Some ev"
  then have "ev = new_event fs da k (b, d)"
    by (simp add: build_event_def split: if_splits)
  then have n: "ev_description ev = lit ''Put out the '' @ lower fs b @ lit '' bin.''"
    by (simp add: new_event_fields description_eq)
  show "ev_description ev = lit ''Put out the '' @ lower fs b @ lit '' bin.''"
    by (rule n)
  show "ev_description ev = capitalize_first_only (description_template fs b)"
    by (simp only: n description_template_eq)
  {
    assume "b = lit ''Mixed recycling''"
    then have "ev_description ev =
        lit ''Put out the '' @ lit ''mixed recycling'' @ lit '' bin.''"
      by (simp only: n lower_Mixed)
    also have "\<dots> = lit ''Put out the mixed recycling bin.''"
      by (simp add: lit_def)
    finally show "ev_description ev = lit ''Put out the mixed recycling bin.''" .
  }
qed

text \<open>The theorem at a label with an accented capital.\<close>

theorem description_construction_witness:
  "date_ok0 (2025, 1, 10) \<and>
   map_option ev_description
     (build_event final_sigma0 date_ok0 True 0 (label_eco, (2025, 1, 10))) =
   Some (lit ''Put out the '' @ [0xE9, 0x63, 0x6F] @ lit '' bins bin.'')"
proof -
  note T = description_construction [where b = label_eco and d = "(2025, 1, 10)"
      and date_ok = date_ok0 and fs = final_sigma0 and da = True and k = 0]
  have ok: "date_ok0 (2025, 1, 10)" by (simp add: date_ok0_def)
  with T obtain e where
    e: "build_event final_sigma0 date_ok0 True 0 (label_eco, (2025, 1, 10)) = Some e"
    by blast
  with T [where ev = e] have "ev_description e =
      lit ''Put out the '' @ lower final_sigma0 label_eco @ lit '' bin.''"
    by blast
  then have "ev_description e = lit ''Put out the '' @ [0xE9, 0x63, 0x6F] @ lit '' bins bin.''"
    by (simp add: lower_eco lit_def)
  with e ok show ?thesis by simp
qed

section \<open>Claims about the extractor\<close>




text \<open>
  C3. For every input the output of the extractor is sorted non-decreasing by the date of
  each \<open>(bin_type, date)\<close> record.
\<close>

theorem extractor_output_sorted_by_date:
  "sorted (map snd (snd (scrape_soup dp slot v c)))"
  by (simp add: scrape_soup_def Let_def sorted_sorted_unique)

text \<open>The theorem on the page with two bin types on one day.\<close>

theorem extractor_output_sorted_by_date_witness:
  "sorted (map snd (snd (scrape_soup dtparse0 slot1 False page1))) \<and>
   map snd (snd (scrape_soup dtparse0 slot1 False page1)) = [(2025, 1, 10), (2025, 1, 10)]"
  using extractor_output_sorted_by_date [of dtparse0 slot1 False page1]
  by (simp add: page1_eval)

text \<open>
  C4. For every input the output of the extractor has no duplicate \<open>(bin_type, date)\<close>
  pair: any two distinct positions hold distinct pairs, and the output has exactly the
  pairs that were accumulated, each once.
\<close>

theorem extractor_output_has_no_duplicates:
  "distinct (snd (scrape_soup dp slot v c)) \<and>
   set (snd (scrape_soup dp slot v c)) = set (collections (scrape_loop dp v c)) \<and>
   (\<forall>i j. i < length (snd (scrape_soup dp slot v c)) \<and>
          j < length (snd (scrape_soup dp slot v c)) \<and> i \<noteq> j \<longrightarrow>
          snd (scrape_soup dp slot v c) ! i \<noteq> snd (scrape_soup dp slot v c) ! j) \<and>
   (\<forall>r \<in> set (collections (scrape_loop dp v c)).
      count_list (snd (scrape_soup dp slot v c)) r = 1)"
proof -
  have d: "distinct (snd (scrape_soup dp slot v c))"
    by (simp add: scrape_soup_def Let_def distinct_sorted_unique)
  have s: "set (snd (scrape_soup dp slot v c)) = set (collections (scrape_loop dp v c))"
    by (simp add: scrape_soup_def Let_def set_sorted_unique)
  from d have n: "\<forall>i j. i < length (snd (scrape_soup dp slot v c)) \<and>
          j < length (snd (scrape_soup dp slot v c)) \<and> i \<noteq> j \<longrightarrow>
          snd (scrape_soup dp slot v c) ! i \<noteq> snd (scrape_soup dp slot v c) ! j"
    by (simp add: distinct_conv_nth)
  from d s have k: "\<forall>r \<in> set (collections (scrape_loop dp v c)).
      count_list (snd (scrape_soup dp slot v c)) r = 1"
    by (simp add: count_list_distinct)
  from d s n k show ?thesis by blast
qed

text \<open>The theorem on the page whose list repeats the date of the next collection.\<close>

theorem extractor_output_has_no_duplicates_witness:
  "collections (scrape_loop dtparse0 False page0) =
    [(lit ''Household waste'', (2025, 1, 10)), (lit ''Household waste'', (2025, 2, 7)),
     (lit ''Household waste'', (2025, 1, 10))] \<and>
   length (snd (scrape_soup dtparse0 slot0 False page0)) = 2 \<and>
   snd (scrape_soup dtparse0 slot0 False page0) ! 0 \<noteq>
   snd (scrape_soup dtparse0 slot0 False page0) ! 1 \<and>
   count_list (snd (scrape_soup dtparse0 slot0 False page0))
     (lit ''Household waste'', (2025, 1, 10)) = 1"
proof -
  have m: "(lit ''Household waste'', (2025, 1, 10)) \<in>
      set (collections (scrape_loop dtparse0 False page0))"
    by (simp add: page0_eval(1))
  with extractor_output_has_no_duplicates [of dtparse0 slot0 False page0]
  have k: "count_list (snd (scrape_soup dtparse0 slot0 False page0))
     (lit ''Household waste'', (2025, 1, 10)) = 1"
    by blast
  have l: "length (snd (scrape_soup dtparse0 slot0 False page0)) = 2"
    by (simp add: page0_eval(2))
  then have "(0::nat) < length (snd (scrape_soup dtparse0 slot0 False page0)) \<and>
     (1::nat) < length (snd (scrape_soup dtparse0 slot0 False page0)) \<and> (0::nat) \<noteq> 1"
    by simp
  with extractor_output_has_no_duplicates [of dtparse0 slot0 False page0]
  have "snd (scrape_soup dtparse0 slot0 False page0) ! 0 \<noteq>
      snd (scrape_soup dtparse0 slot0 False page0) ! 1"
    by blast
  with l k page0_eval(1) show ?thesis by blast
qed

text \<open>
  C5. The scan for the next collection stops at the first block whose text has the marker
  \<^verbatim>\<open>Next collection\<close>: the blocks after it do not matter, also when no date is extracted
  from the matched block (the state is then unchanged), and the scan adds at most one
  record.
\<close>

theorem next_collection_stops_at_first_marker:
  "((\<forall>x \<in> set pre. \<not> contains (lit ''Next collection'') (get_text x)) \<and>
    contains (lit ''Next collection'') (get_text dv) \<longrightarrow>
      next_collection dp v b (pre @ dv # post) st = next_collection dp v b [dv] st \<and>
      (extract_date dp (get_text dv) = None \<longrightarrow>
         next_collection dp v b (pre @ dv # post) st = st)) \<and>
   (\<exists>rs. collections (next_collection dp v b dvs st) = collections st @ rs \<and> length rs \<le> 1)"
proof -
  have a: "next_collection dp v b (pre @ dv # post) st = next_collection dp v b [dv] st \<and>
      (extract_date dp (get_text dv) = None \<longrightarrow>
         next_collection dp v b (pre @ dv # post) st = st)"
    if pre: "\<forall>x \<in> set pre. \<not> contains (lit ''Next collection'') (get_text x)"
      and dv: "contains (lit ''Next collection'') (get_text dv)"
  proof -
    have s: "next_collection dp v b (pre @ dv # post) st = next_collection dp v b (dv # post) st"
      using pre by (rule next_collection_skip)
    show ?thesis
      using dv by (simp add: s)
  qed
  have c: "\<exists>rs. collections (next_collection dp v b dvs st) = collections st @ rs \<and>
       length rs \<le> 1"
    using next_collection_collections [of dp v b dvs st]
      next_collection_at_most_one [of dp b dvs] by blast
  from a c show ?thesis by blast
qed

text \<open>
  The theorem on three blocks: the second has the marker and no date, and the date of the
  third is not read.
\<close>

theorem next_collection_stops_at_first_marker_witness:
  "next_collection dtparse0 True (lit ''Bin'') blocks0 scrape_state0 = scrape_state0"
proof -
  have b: "blocks0 = [blocks0 ! 0] @ blocks0 ! 1 # [blocks0 ! 2]"
    by (simp add: blocks0_def)
  have "next_collection dtparse0 True (lit ''Bin'') ([blocks0 ! 0] @ blocks0 ! 1 # [blocks0 ! 2])
      scrape_state0 = scrape_state0"
    using next_collection_stops_at_first_marker
      [of "[blocks0 ! 0]" "blocks0 ! 1" dtparse0 True "lit ''Bin''" "[blocks0 ! 2]" scrape_state0]
      blocks0_eval by simp
  with b show ?thesis by simp
qed

text \<open>
  C6. Date extraction has two outcomes, a date or nothing: a text with no match of the
  pattern, and a match on which the parser raises \<^verbatim>\<open>ValueError\<close> or \<^verbatim>\<open>OverflowError\<close>, give
  nothing. The fragment then adds no record and the scan goes on with the next list item;
  the fragment \<^verbatim>\<open>Next collection TBD\<close> adds no record.
\<close>

theorem unparseable_fragment_is_dropped:
  "(re_search DATE_RE txt = None \<longrightarrow> extract_date dp txt = None) \<and>
   (\<forall>m. re_search DATE_RE txt = Some m \<and> (dp m = ValueError \<or> dp m = OverflowError) \<longrightarrow>
      extract_date dp txt = None) \<and>
   (extract_date dp txt = None \<or>
      (\<exists>m d. re_search DATE_RE txt = Some m \<and> dp m = Parsed d \<and> extract_date dp txt = Some d)) \<and>
   (extract_date dp (get_text_strip (lit '' '') li) = None \<longrightarrow>
      future_item dp b st li = st \<and>
      foldl (future_item dp b) st (li # lis) = foldl (future_item dp b) st lis) \<and>
   (contains (lit ''Next collection'') (get_text dv) \<and> extract_date dp (get_text dv) = None \<longrightarrow>
      next_collection dp v b (dv # dvs) st = st) \<and>
   extract_date dp (lit ''Next collection TBD'') = None \<and>
   next_collection dp v b (Tag (lit ''div'') [lit ''u-mb-2''] [Text (lit ''Next collection TBD'')] # dvs)
     st = st"
proof -
  have tbd: "re_search DATE_RE (lit ''Next collection TBD'') = None"
    by code_simp
  have e: "extract_date dp (lit ''Next collection TBD'') = None"
    by (simp add: extract_date_def tbd)
  have m: "contains (lit ''Next collection'') (lit ''Next collection TBD'')"
    by code_simp
  have g: "get_text (Tag (lit ''div'') [lit ''u-mb-2''] [Text (lit ''Next collection TBD'')]) =
      lit ''Next collection TBD''"
    by (simp add: get_text_def)
  have n: "next_collection dp v b
      (Tag (lit ''div'') [lit ''u-mb-2''] [Text (lit ''Next collection TBD'')] # dvs) st = st"
    by (simp add: g m e)
  have a1: "re_search DATE_RE txt = None \<longrightarrow> extract_date dp txt = None"
    by (simp add: extract_date_def)
  have a2: "\<forall>m. re_search DATE_RE txt = Some m \<and> (dp m = ValueError \<or> dp m = OverflowError) \<longrightarrow>
      extract_date dp txt = None"
    by (auto simp: extract_date_def)
  have a3: "extract_date dp txt = None \<or>
      (\<exists>m d. re_search DATE_RE txt = Some m \<and> dp m = Parsed d \<and> extract_date dp txt = Some d)"
    by (auto simp: extract_date_def split: option.splits parse_result.splits)
  have a4: "extract_date dp (get_text_strip (lit '' '') li) = None \<longrightarrow>
      future_item dp b st li = st \<and>
      foldl (future_item dp b) st (li # lis) = foldl (future_item dp b) st lis"
    by (simp add: future_item_def)
  have a5: "contains (lit ''Next collection'') (get_text dv) \<and> extract_date dp (get_text dv) = None \<longrightarrow>
      next_collection dp v b (dv # dvs) st = st"
    by simp
  from a1 a2 a3 a4 a5 e n show ?thesis by blast
qed

text \<open>The theorem on a list item whose date the parser rejects.\<close>

theorem unparseable_fragment_is_dropped_witness:
  "re_search DATE_RE (get_text_strip (lit '' '') li_bad) = Some (lit ''Friday, 99 January 2025'') \<and>
   dtparse0 (lit ''Friday, 99 January 2025'') = ValueError \<and>
   extract_date dtparse0 (get_text_strip (lit '' '') li_bad) = None \<and>
   future_item dtparse0 (lit ''Bin'') scrape_state0 li_bad = scrape_state0"
proof -
  note T = unparseable_fragment_is_dropped
    [of "get_text_strip (lit '' '') li_bad" dtparse0 li_bad "lit ''Bin''" scrape_state0]
  from T li_bad_eval have e: "extract_date dtparse0 (get_text_strip (lit '' '') li_bad) = None"
    by blast
  with T have "future_item dtparse0 (lit ''Bin'') scrape_state0 li_bad = scrape_state0"
    by blast
  with e li_bad_eval show ?thesis by blast
qed

text \<open>
  C9. The flag \<open>verbose\<close> does not change the records returned: they are the same with
  the flag on and off, for the parsed document and for the whole of \<^verbatim>\<open>_scrape\<close>, and with
  the flag off nothing is printed.
\<close>

theorem verbose_does_not_change_records:
  "snd (scrape_soup dp slot True c) = snd (scrape_soup dp slot False c) \<and>
   fst (scrape_soup dp slot False c) = [] \<and>
   map_sum id snd (scrape g h dp slot url True) = map_sum id snd (scrape g h dp slot url False)"
proof -
  have a: "snd (scrape_soup dp slot True c) = snd (scrape_soup dp slot False c)" for c
    using scrape_loop_collections [of dp True c False] by (simp add: scrape_soup_def Let_def)
  have b: "fst (scrape_soup dp slot False c) = []"
    by (simp add: scrape_soup_def Let_def scrape_loop_quiet)
  have "map_sum id snd (scrape g h dp slot url True) =
      map_sum id snd (scrape g h dp slot url False)"
    by (simp add: scrape_def a split: sum.splits)
  with a b show ?thesis by blast
qed

text \<open>The theorem on the page whose next collection is found and printed.\<close>

theorem verbose_does_not_change_records_witness:
  "snd (scrape_soup dtparse0 slot0 True page0) =
     [(lit ''Household waste'', (2025, 1, 10)), (lit ''Household waste'', (2025, 2, 7))] \<and>
   fst (scrape_soup dtparse0 slot0 True page0) = [lit ''Found next Household waste: 2025-01-10''] \<and>
   fst (scrape_soup dtparse0 slot0 False page0) = []"
proof -
  have "snd (scrape_soup dtparse0 slot0 False page0) =
     [(lit ''Household waste'', (2025, 1, 10)), (lit ''Household waste'', (2025, 2, 7))]"
    by code_simp
  moreover have "fst (scrape_soup dtparse0 slot0 True page0) =
      [lit ''Found next Household waste: 2025-01-10'']"
    by code_simp
  ultimately show ?thesis
    using verbose_does_not_change_records [of dtparse0 slot0 page0] by simp
qed



end
